theory Spec2Isabelle
  imports Main "HOL-Library.Sublist"
begin

section \<open>lambda-ci: discovery, parsing, build, packaging and deployment of Lambda functions\<close>

text \<open>
  The program is one Go file, \<^verbatim>\<open>lambda-ci.go\<close>. Its functions work on the file system,
  start a compiler subprocess and call the AWS Lambda SDK. The embedding passes the
  state of the world explicitly: the files the program reads and writes, and the trace
  of what it has asked of its collaborators (subprocesses, SDK calls, log lines). What
  the collaborators answer is a parameter, the record \<open>env\<close>.
\<close>

subsection \<open>Strings\<close>

type_synonym bytes = string

text \<open>\<^verbatim>\<open>strings.Compare(a, b)\<close>: bytewise lexicographic comparison, \<open>-1\<close>, \<open>0\<close> or \<open>1\<close>.\<close>

fun strings_Compare :: "string \<Rightarrow> string \<Rightarrow> int" where
  "strings_Compare [] [] = 0"
| "strings_Compare [] (b # bs) = - 1"
| "strings_Compare (a # as) [] = 1"
| "strings_Compare (a # as) (b # bs) =
     (if (of_char a :: nat) < of_char b then - 1
      else if (of_char b :: nat) < of_char a then 1
      else strings_Compare as bs)"

text \<open>
  \<^verbatim>\<open>strings.Replace(s, old, new, 1)\<close>: the first occurrence of \<open>old\<close> in \<open>s\<close>, scanning
  from the left, is replaced by \<open>new\<close>; \<open>s\<close> is returned as it is when \<open>old\<close> does not occur.
  (The source only ever passes the count 1.)
\<close>

fun strings_Replace1 :: "string \<Rightarrow> string \<Rightarrow> string \<Rightarrow> string" where
  "strings_Replace1 [] old new = (if old = [] then new else [])"
| "strings_Replace1 (c # cs) old new =
     (if prefix old (c # cs) then new @ drop (length old) (c # cs)
      else c # strings_Replace1 cs old new)"

text \<open>
  The base name a \<^verbatim>\<open>FileInfo\<close> of package \<^verbatim>\<open>os\<close> reports for a path: trailing slashes
  are dropped (never the first character), then everything up to the last slash.
\<close>

fun strip_slashes_rev :: "string \<Rightarrow> string" where
  "strip_slashes_rev [] = []"
| "strip_slashes_rev (c # cs) =
     (if c = CHR ''/'' \<and> cs \<noteq> [] then strip_slashes_rev cs else c # cs)"

definition basename :: "string \<Rightarrow> string" where
  "basename name =
     (case strip_slashes_rev (rev name) of
        [] \<Rightarrow> []
      | c # cs \<Rightarrow> rev (c # takeWhile (\<lambda>x. x \<noteq> CHR ''/'') cs))"

subsection \<open>The function descriptor\<close>

record functionConfig =
  Name :: string
  FileName :: string
  Path :: string

text \<open>The zero value of the struct, as \<^verbatim>\<open>var function functionConfig\<close> declares it.\<close>

definition zeroConfig :: functionConfig where
  "zeroConfig = \<lparr>Name = [], FileName = [], Path = []\<rparr>"

text \<open>\<^verbatim>\<open>fmt.Sprintf("%s/%s", ...)\<close> and \<^verbatim>\<open>fmt.Sprintf("%s/%s.zip", ...)\<close>.\<close>

definition getBuildOutputPath :: "functionConfig \<Rightarrow> string" where
  "getBuildOutputPath conf = Path conf @ ''/'' @ Name conf"

definition getZipOutputPath :: "functionConfig \<Rightarrow> string" where
  "getZipOutputPath conf = Path conf @ ''/'' @ Name conf @ ''.zip''"

definition getFullFilePath :: "functionConfig \<Rightarrow> string" where
  "getFullFilePath conf = Path conf @ ''/'' @ FileName conf"

subsection \<open>Errors\<close>

datatype error =
    FsError string string
  | YamlSyntaxError string
  | YamlTypeError nat
  | ExecError string
  | ZipError string
  | AwsError string
  | SkipDir
  | RuntimePanic string

subsection \<open>Descriptor documents\<close>

text \<open>
  \<^verbatim>\<open>yaml.Unmarshal\<close> belongs to \<^verbatim>\<open>gopkg.in/yaml.v2\<close>, not to this repository. It works
  in two steps: the text is parsed into a document tree, and the tree is decoded into the
  destination struct, guided by the struct's field tags. The first step is a parameter
  (\<open>yaml_parse\<close> below); the second is modelled here for \<open>functionConfig\<close>, whose tags
  are \<^verbatim>\<open>yaml:"name"\<close>, \<^verbatim>\<open>yaml:"fileName"\<close> and \<^verbatim>\<open>yaml:"-"\<close>. Documents are taken with
  aliases and merge keys already expanded.
\<close>

datatype yaml =
    YNull
  | YScalar string
  | YSeq "yaml list"
  | YMap "(yaml \<times> yaml) list"

text \<open>
  Decoding a node into a destination of type \<^verbatim>\<open>string\<close>: a null resets the destination
  to its zero value, any other scalar stores its text, a sequence or a mapping is a type
  error and leaves the destination alone. The result is (good, new value).
\<close>

fun unmarshal_string :: "yaml \<Rightarrow> string \<Rightarrow> bool \<times> string" where
  "unmarshal_string YNull out = (True, [])"
| "unmarshal_string (YScalar s) out = (True, s)"
| "unmarshal_string (YSeq xs) out = (False, out)"
| "unmarshal_string (YMap kvs) out = (False, out)"

text \<open>
  Decoding a mapping into the struct: each key is decoded into a string; a key that
  names a tagged field has its value decoded into that field; any other key is skipped
  (the decoder is not in strict mode). The first component counts the type errors.
\<close>

fun mappingStruct :: "(yaml \<times> yaml) list \<Rightarrow> nat \<times> functionConfig \<Rightarrow> nat \<times> functionConfig" where
  "mappingStruct [] acc = acc"
| "mappingStruct ((k, v) # kvs) (n, out) =
     (case unmarshal_string k [] of
        (False, _) \<Rightarrow> mappingStruct kvs (Suc n, out)
      | (True, key) \<Rightarrow>
          if key = ''name'' then
            (case unmarshal_string v (Name out) of
               (good, s) \<Rightarrow> mappingStruct kvs (if good then n else Suc n, out\<lparr>Name := s\<rparr>))
          else if key = ''fileName'' then
            (case unmarshal_string v (FileName out) of
               (good, s) \<Rightarrow> mappingStruct kvs (if good then n else Suc n, out\<lparr>FileName := s\<rparr>))
          else mappingStruct kvs (n, out))"

fun unmarshal_struct :: "yaml \<Rightarrow> functionConfig \<Rightarrow> nat \<times> functionConfig" where
  "unmarshal_struct YNull out = (0, zeroConfig)"
| "unmarshal_struct (YScalar s) out = (1, out)"
| "unmarshal_struct (YSeq xs) out = (1, out)"
| "unmarshal_struct (YMap kvs) out = mappingStruct kvs (0, out)"

subsection \<open>The directory tree, as the walk sees it\<close>

datatype fsnode =
    FileNode
  | DirNode "(string \<times> fsnode) list"
  | DirUnreadable
  | LstatFails

subsection \<open>The AWS Lambda SDK's request and response types\<close>

record UpdateFunctionCodeInput =
  ufc_FunctionName :: "string option"
  ufc_ZipFile :: "bytes option"
  ufc_S3Bucket :: "string option"
  ufc_S3Key :: "string option"
  ufc_S3ObjectVersion :: "string option"
  ufc_RevisionId :: "string option"
  ufc_DryRun :: "bool option"
  ufc_Publish :: "bool option"

record UpdateFunctionConfigurationInput =
  ufg_FunctionName :: "string option"
  ufg_Handler :: "string option"
  ufg_Description :: "string option"
  ufg_KMSKeyArn :: "string option"
  ufg_MemorySize :: "int option"
  ufg_RevisionId :: "string option"
  ufg_Role :: "string option"
  ufg_Runtime :: "string option"
  ufg_Timeout :: "int option"

record FunctionConfiguration =
  fc_FunctionName :: "string option"
  fc_Handler :: "string option"

subsection \<open>The world and the collaborators\<close>

datatype event =
    Exec string "string list"
  | CallUpdateFunctionCode UpdateFunctionCodeInput
  | CallUpdateFunctionConfiguration UpdateFunctionConfigurationInput
  | LogInfo string
  | LogFatal error string

record world =
  files :: "string \<rightharpoonup> bytes"
  trace :: "event list"

datatype fs_op = OpReadFile | OpCreate | OpOpen | OpStat | OpCopy | OpRemove

record zip_header =
  zh_Name :: string
  zh_Method :: nat
  zh_Size :: nat

text \<open>
  What the collaborators answer.
  \<^item> \<open>getwd\<close>: \<^verbatim>\<open>os.Getwd()\<close>.
  \<^item> \<open>tree\<close>: the directory tree below the working directory when the walk runs.
  \<^item> \<open>fs_fault op p\<close>: the operating system's refusal of operation \<open>op\<close> on path \<open>p\<close>
    (permissions, I/O errors), if any; a missing file is an error of the store itself.
  \<^item> \<open>yaml_parse\<close>: the YAML parser: a syntax error, no document at all, or a document.
  \<^item> \<open>exec_Run name args fs\<close>: running a subprocess to its end: a spawn failure or
    non-zero exit (the files stay as they were), or exit 0 and the files as the
    subprocess left them.
  \<^item> \<open>zip_bytes\<close>: the bytes \<^verbatim>\<open>archive/zip\<close>'s writer has written once it is closed,
    for the entries it was given; \<open>zip_read\<close>: the entries its reader finds.
  \<^item> \<open>new_session\<close>: whether \<^verbatim>\<open>session.NewSession()\<close> succeeds.
  \<^item> \<open>aws_UpdateFunctionCode\<close>, \<open>aws_UpdateFunctionConfiguration\<close>: the SDK calls;
    the answer may depend on what happened before (the trace).
\<close>

record env =
  getwd :: "string + string"
  tree :: fsnode
  fs_fault :: "fs_op \<Rightarrow> string \<Rightarrow> string option"
  yaml_parse :: "bytes \<Rightarrow> string + yaml option"
  exec_Run :: "string \<Rightarrow> string list \<Rightarrow> (string \<rightharpoonup> bytes) \<Rightarrow> string + (string \<rightharpoonup> bytes)"
  zip_bytes :: "(zip_header \<times> bytes) list \<Rightarrow> bytes"
  zip_read :: "bytes \<Rightarrow> (zip_header \<times> bytes) list option"
  new_session :: bool
  aws_UpdateFunctionCode :: "event list \<Rightarrow> UpdateFunctionCodeInput \<Rightarrow> string + FunctionConfiguration"
  aws_UpdateFunctionConfiguration ::
    "event list \<Rightarrow> UpdateFunctionConfigurationInput \<Rightarrow> string + FunctionConfiguration"

subsection \<open>File operations\<close>

definition ioutil_ReadFile :: "env \<Rightarrow> world \<Rightarrow> string \<Rightarrow> error + bytes" where
  "ioutil_ReadFile e w p =
     (case fs_fault e OpReadFile p of
        Some msg \<Rightarrow> Inl (FsError msg p)
      | None \<Rightarrow>
          (case files w p of
             None \<Rightarrow> Inl (FsError ''no such file or directory'' p)
           | Some data \<Rightarrow> Inr data))"

definition os_Remove :: "env \<Rightarrow> world \<Rightarrow> string \<Rightarrow> error option \<times> world" where
  "os_Remove e w p =
     (case fs_fault e OpRemove p of
        Some msg \<Rightarrow> (Some (FsError msg p), w)
      | None \<Rightarrow>
          (case files w p of
             None \<Rightarrow> (Some (FsError ''no such file or directory'' p), w)
           | Some data \<Rightarrow> (None, w\<lparr>files := (files w)(p := None)\<rparr>)))"

subsection \<open>filepath.Walk\<close>

text \<open>
  \<^verbatim>\<open>filepath.Walk\<close> belongs to Go's standard library. It calls the function it is given
  for the root and for every entry below it, directories before their entries, the
  entries of a directory in the order of the listing. The function it is given mutates
  captured variables; here it takes and returns their state \<open>'s\<close>.
\<close>

record FileInfo =
  fi_Name :: string
  fi_IsDir :: bool

type_synonym 's WalkFunc =
  "string \<Rightarrow> FileInfo option \<Rightarrow> error option \<Rightarrow> 's \<Rightarrow> error option \<times> 's"

text \<open>
  \<^verbatim>\<open>filepath.Clean\<close> (Unix): the path is read element by element, the elements being
  what stands between slashes. An empty element and \<^verbatim>\<open>.\<close> are dropped; \<^verbatim>\<open>..\<close> removes the
  element written last, is dropped at the start of a rooted path, and is kept at the start
  of any other path; every other element is written. The state of the cleaner is the
  number of leading \<^verbatim>\<open>..\<close> elements written and the elements written after them. The
  result is the elements joined by slashes, after a slash when the path is rooted;
  \<^verbatim>\<open>.\<close> when nothing was written and the path is not rooted.
\<close>

fun split_slash :: "string \<Rightarrow> string list" where
  "split_slash [] = [[]]"
| "split_slash (c # cs) =
     (if c = CHR ''/'' then [] # split_slash cs
      else (case split_slash cs of [] \<Rightarrow> [[c]] | s # ss \<Rightarrow> (c # s) # ss))"

fun join_slash :: "string list \<Rightarrow> string" where
  "join_slash [] = []"
| "join_slash [s] = s"
| "join_slash (s # t # ss) = s @ ''/'' @ join_slash (t # ss)"

fun clean_step :: "bool \<Rightarrow> nat \<times> string list \<Rightarrow> string \<Rightarrow> nat \<times> string list" where
  "clean_step rooted (ups, segs) seg =
     (if seg = [] \<or> seg = ''.'' then (ups, segs)
      else if seg = ''..'' then
        (if segs \<noteq> [] then (ups, butlast segs)
         else if rooted then (ups, segs)
         else (Suc ups, segs))
      else (ups, segs @ [seg]))"

definition rooted :: "string \<Rightarrow> bool" where
  "rooted path = (path \<noteq> [] \<and> hd path = CHR ''/'')"

definition clean_state :: "string \<Rightarrow> nat \<times> string list" where
  "clean_state path = foldl (clean_step (rooted path)) (0, []) (split_slash path)"

definition clean_out :: "nat \<times> string list \<Rightarrow> string" where
  "clean_out st = join_slash (replicate (fst st) ''..'' @ snd st)"

definition filepath_Clean :: "string \<Rightarrow> string" where
  "filepath_Clean path =
     (if path = [] then ''.''
      else if rooted path then ''/'' @ clean_out (clean_state path)
      else if clean_out (clean_state path) = [] then ''.''
      else clean_out (clean_state path))"

text \<open>
  \<^verbatim>\<open>filepath.Join(dir, name)\<close>: from the first element that is not empty on, the elements
  are joined by a slash and the result is cleaned; the empty string when both are empty.
\<close>

definition filepath_Join :: "string \<Rightarrow> string \<Rightarrow> string" where
  "filepath_Join dir name =
     (if dir \<noteq> [] then filepath_Clean (dir @ ''/'' @ name)
      else if name \<noteq> [] then filepath_Clean name
      else [])"

fun IsDir :: "fsnode \<Rightarrow> bool" where
  "IsDir (DirNode entries) = True"
| "IsDir DirUnreadable = True"
| "IsDir FileNode = False"
| "IsDir LstatFails = False"

text \<open>
  \<open>walk\<close> is only ever called on an entry whose \<^verbatim>\<open>Lstat\<close> succeeded; its equation for
  \<open>LstatFails\<close> is what both of its callers do with such an entry.
\<close>

fun walk :: "string \<Rightarrow> string \<Rightarrow> fsnode \<Rightarrow> 's WalkFunc \<Rightarrow> 's \<Rightarrow> error option \<times> 's"
  and walk_names :: "string \<Rightarrow> (string \<times> fsnode) list \<Rightarrow> 's WalkFunc \<Rightarrow> 's \<Rightarrow> error option \<times> 's"
where
  "walk path name FileNode walkFn s =
     walkFn path (Some \<lparr>fi_Name = name, fi_IsDir = False\<rparr>) None s"
| "walk path name DirUnreadable walkFn s =
     walkFn path (Some \<lparr>fi_Name = name, fi_IsDir = True\<rparr>)
       (Some (FsError ''cannot read directory'' path)) s"
| "walk path name (DirNode entries) walkFn s =
     (case walkFn path (Some \<lparr>fi_Name = name, fi_IsDir = True\<rparr>) None s of
        (Some err1, s') \<Rightarrow> (Some err1, s')
      | (None, s') \<Rightarrow> walk_names path entries walkFn s')"
| "walk path name LstatFails walkFn s =
     walkFn path None (Some (FsError ''lstat failed'' path)) s"
| "walk_names path [] walkFn s = (None, s)"
| "walk_names path ((name, node) # rest) walkFn s =
     (case walk (filepath_Join path name) name node walkFn s of
        (None, s') \<Rightarrow> walk_names path rest walkFn s'
      | (Some err, s') \<Rightarrow>
          if err = SkipDir \<and> (node = LstatFails \<or> IsDir node)
          then walk_names path rest walkFn s'
          else (Some err, s'))"

definition filepath_Walk :: "fsnode \<Rightarrow> string \<Rightarrow> 's WalkFunc \<Rightarrow> 's \<Rightarrow> error option \<times> 's" where
  "filepath_Walk t root walkFn s =
     (case walk root (basename root) t walkFn s of
        (Some err, s') \<Rightarrow> if err = SkipDir then (None, s') else (Some err, s')
      | (None, s') \<Rightarrow> (None, s'))"

subsection \<open>findFunctionConfigs\<close>

text \<open>
  The function literal passed to the walk. \<^verbatim>\<open>info\<close> is nil only together with a
  non-nil \<^verbatim>\<open>err\<close>; reading the name of a nil \<^verbatim>\<open>info\<close> would be a nil dereference.
\<close>

definition visit :: "string list WalkFunc" where
  "visit path info err fs =
     (case err of
        Some e \<Rightarrow> (Some e, fs)
      | None \<Rightarrow>
          (case info of
             None \<Rightarrow> (Some (RuntimePanic ''nil pointer dereference''), fs)
           | Some i \<Rightarrow>
               if strings_Compare (fi_Name i) ''.function.yaml'' = 0
               then (None, fs @ [path])
               else (None, fs)))"

definition findFunctionConfigs :: "env \<Rightarrow> string \<Rightarrow> error + string list" where
  "findFunctionConfigs e root =
     (case filepath_Walk (tree e) root visit [] of
        (Some err, fs) \<Rightarrow> Inl err
      | (None, fs) \<Rightarrow> Inr fs)"

subsection \<open>parseFunctionConfig\<close>

definition yaml_Unmarshal :: "env \<Rightarrow> bytes \<Rightarrow> functionConfig \<Rightarrow> error + functionConfig" where
  "yaml_Unmarshal e data out =
     (case yaml_parse e data of
        Inl msg \<Rightarrow> Inl (YamlSyntaxError msg)
      | Inr None \<Rightarrow> Inr out
      | Inr (Some doc) \<Rightarrow>
          (case unmarshal_struct doc out of
             (0, out') \<Rightarrow> Inr out'
           | (Suc n, out') \<Rightarrow> Inl (YamlTypeError (Suc n))))"

definition parseFunctionConfig :: "env \<Rightarrow> world \<Rightarrow> string \<Rightarrow> error + functionConfig" where
  "parseFunctionConfig e w path =
     (case ioutil_ReadFile e w path of
        Inl err \<Rightarrow> Inl err
      | Inr data \<Rightarrow>
          (case yaml_Unmarshal e data zeroConfig of
             Inl err \<Rightarrow> Inl err
           | Inr function \<Rightarrow>
               Inr (function\<lparr>Path := strings_Replace1 path ''/.function.yaml'' []\<rparr>)))"

subsection \<open>Process outcomes and logging\<close>

text \<open>
  How a piece of \<^verbatim>\<open>main\<close> ends: it returns, the process exits (\<^verbatim>\<open>logrus\<close>'s \<^verbatim>\<open>Fatal\<close>
  and \<^verbatim>\<open>Fatalf\<close> log the line and call \<^verbatim>\<open>os.Exit(1)\<close>; Go runs no deferred call on
  \<^verbatim>\<open>os.Exit\<close>), or a panic unwinds the stack (Go runs the deferred calls, then the
  process dies). A panic raised inside a called function travels as the error value
  \<open>RuntimePanic\<close> until it reaches \<^verbatim>\<open>main\<close>.
\<close>

datatype outcome = Returned | Exited | Panicked

fun is_panic :: "error \<Rightarrow> bool" where
  "is_panic (RuntimePanic m) = True"
| "is_panic err = False"

definition log_event :: "event \<Rightarrow> world \<Rightarrow> world" where
  "log_event ev w = w\<lparr>trace := trace w @ [ev]\<rparr>"

definition logrus_Fatalf :: "error \<Rightarrow> string \<Rightarrow> world \<Rightarrow> outcome \<times> world" where
  "logrus_Fatalf err msg w = (Exited, log_event (LogFatal err msg) w)"

definition logrus_Infof :: "string \<Rightarrow> world \<Rightarrow> world" where
  "logrus_Infof msg w = log_event (LogInfo msg) w"

subsection \<open>mustDeleteBuildFile, mustDeleteZipFile\<close>

definition mustDeleteBuildFile :: "env \<Rightarrow> functionConfig \<Rightarrow> world \<Rightarrow> outcome \<times> world" where
  "mustDeleteBuildFile e conf w =
     (case os_Remove e w (getBuildOutputPath conf) of
        (Some err, w') \<Rightarrow>
          logrus_Fatalf err (''error while deleting build at '' @ getBuildOutputPath conf) w'
      | (None, w') \<Rightarrow> (Returned, w'))"

definition mustDeleteZipFile :: "env \<Rightarrow> functionConfig \<Rightarrow> world \<Rightarrow> outcome \<times> world" where
  "mustDeleteZipFile e conf w =
     (case os_Remove e w (getZipOutputPath conf) of
        (Some err, w') \<Rightarrow>
          logrus_Fatalf err (''error while deleting build at '' @ getBuildOutputPath conf) w'
      | (None, w') \<Rightarrow> (Returned, w'))"

subsection \<open>build\<close>

text \<open>\<^verbatim>\<open>exec.Command(name, args...).Run()\<close>\<close>

definition exec_Command_Run :: "env \<Rightarrow> string \<Rightarrow> string list \<Rightarrow> world \<Rightarrow> error option \<times> world" where
  "exec_Command_Run e name args w =
     (case exec_Run e name args (files w) of
        Inl msg \<Rightarrow> (Some (ExecError msg), log_event (Exec name args) w)
      | Inr fs' \<Rightarrow> (None, (log_event (Exec name args) w)\<lparr>files := fs'\<rparr>))"

definition build :: "env \<Rightarrow> functionConfig \<Rightarrow> world \<Rightarrow> error option \<times> world" where
  "build e conf w =
     (case exec_Command_Run e ''go''
             [''build'', ''-o'', getBuildOutputPath conf, getFullFilePath conf] w of
        (Some err, w') \<Rightarrow> (Some err, w')
      | (None, w') \<Rightarrow> (None, w'))"

subsection \<open>zipBuild\<close>

definition Store :: nat where "Store = 0"
definition Deflate :: nat where "Deflate = 8"

definition os_Create :: "env \<Rightarrow> world \<Rightarrow> string \<Rightarrow> error option \<times> world" where
  "os_Create e w p =
     (case fs_fault e OpCreate p of
        Some msg \<Rightarrow> (Some (FsError msg p), w)
      | None \<Rightarrow> (None, w\<lparr>files := (files w)(p \<mapsto> [])\<rparr>))"

text \<open>\<^verbatim>\<open>os.Open\<close> followed by reads: the open file keeps the content it had.\<close>

definition os_Open :: "env \<Rightarrow> world \<Rightarrow> string \<Rightarrow> error + bytes" where
  "os_Open e w p =
     (case fs_fault e OpOpen p of
        Some msg \<Rightarrow> Inl (FsError msg p)
      | None \<Rightarrow>
          (case files w p of
             None \<Rightarrow> Inl (FsError ''no such file or directory'' p)
           | Some data \<Rightarrow> Inr data))"

definition file_Stat :: "env \<Rightarrow> string \<Rightarrow> bytes \<Rightarrow> error + FileInfo \<times> nat" where
  "file_Stat e p data =
     (case fs_fault e OpStat p of
        Some msg \<Rightarrow> Inl (FsError msg p)
      | None \<Rightarrow> Inr (\<lparr>fi_Name = basename p, fi_IsDir = False\<rparr>, length data))"

text \<open>\<^verbatim>\<open>zip.FileInfoHeader\<close>: name and size from the file's info; the method is left at 0.\<close>

definition zip_FileInfoHeader :: "FileInfo \<times> nat \<Rightarrow> error + zip_header" where
  "zip_FileInfoHeader st =
     Inr \<lparr>zh_Name = fi_Name (fst st), zh_Method = Store, zh_Size = snd st\<rparr>"

text \<open>
  \<^verbatim>\<open>Writer.CreateHeader\<close> refuses a name longer than 65535 bytes; otherwise the entry
  is begun. The result is the writer's list of entries.
\<close>

definition zip_CreateHeader ::
  "zip_header \<Rightarrow> (zip_header \<times> bytes) list \<Rightarrow> error + (zip_header \<times> bytes) list" where
  "zip_CreateHeader h entries =
     (if length (zh_Name h) > 65535 then Inl (ZipError ''zip: FileHeader.Name too long'')
      else Inr (entries @ [(h, [])]))"

text \<open>
  \<^verbatim>\<open>io.Copy(fileWriter, fileToZip)\<close>: the data of the entry begun last becomes the
  file's content. A copy that fails is taken to fail at its first read.
\<close>

definition io_Copy ::
  "env \<Rightarrow> string \<Rightarrow> bytes \<Rightarrow> (zip_header \<times> bytes) list \<Rightarrow> error + (zip_header \<times> bytes) list" where
  "io_Copy e p data entries =
     (case fs_fault e OpCopy p of
        Some msg \<Rightarrow> Inl (FsError msg p)
      | None \<Rightarrow>
          (case rev entries of
             [] \<Rightarrow> Inr entries
           | (h, d) # written \<Rightarrow> Inr (rev written @ [(h, data)])))"

text \<open>
  The deferred \<^verbatim>\<open>writer.Close()\<close>: it runs on every return after \<^verbatim>\<open>zip.NewWriter\<close>, and
  leaves in the file the archive of the entries written so far. Its own error is dropped
  by the source.
\<close>

definition writer_Close :: "env \<Rightarrow> string \<Rightarrow> (zip_header \<times> bytes) list \<Rightarrow> world \<Rightarrow> world" where
  "writer_Close e zp entries w = w\<lparr>files := (files w)(zp \<mapsto> zip_bytes e entries)\<rparr>"

definition zipBuild :: "env \<Rightarrow> functionConfig \<Rightarrow> world \<Rightarrow> error option \<times> world" where
  "zipBuild e conf w =
     (case os_Create e w (getZipOutputPath conf) of
        (Some err, w1) \<Rightarrow> (Some err, w1)
      | (None, w1) \<Rightarrow>
          (case os_Open e w1 (getBuildOutputPath conf) of
             Inl err \<Rightarrow> (Some err, writer_Close e (getZipOutputPath conf) [] w1)
           | Inr fileToZip \<Rightarrow>
               (case file_Stat e (getBuildOutputPath conf) fileToZip of
                  Inl err \<Rightarrow> (Some err, writer_Close e (getZipOutputPath conf) [] w1)
                | Inr fileStats \<Rightarrow>
                    (case zip_FileInfoHeader fileStats of
                       Inl err \<Rightarrow> (Some err, writer_Close e (getZipOutputPath conf) [] w1)
                     | Inr header0 \<Rightarrow>
                         (case zip_CreateHeader
                                 (header0\<lparr>zh_Name := fi_Name (fst fileStats), zh_Method := Deflate\<rparr>) [] of
                            Inl err \<Rightarrow> (Some err, writer_Close e (getZipOutputPath conf) [] w1)
                          | Inr entries \<Rightarrow>
                              (case io_Copy e (getBuildOutputPath conf) fileToZip entries of
                                 Inl err \<Rightarrow>
                                   (Some err, writer_Close e (getZipOutputPath conf) entries w1)
                               | Inr entries' \<Rightarrow>
                                   (None, writer_Close e (getZipOutputPath conf) entries' w1)))))))"

subsection \<open>updateLambda\<close>

definition emptyUpdateFunctionCodeInput :: UpdateFunctionCodeInput where
  "emptyUpdateFunctionCodeInput =
     \<lparr>ufc_FunctionName = None, ufc_ZipFile = None, ufc_S3Bucket = None, ufc_S3Key = None,
      ufc_S3ObjectVersion = None, ufc_RevisionId = None, ufc_DryRun = None, ufc_Publish = None\<rparr>"

definition emptyUpdateFunctionConfigurationInput :: UpdateFunctionConfigurationInput where
  "emptyUpdateFunctionConfigurationInput =
     \<lparr>ufg_FunctionName = None, ufg_Handler = None, ufg_Description = None, ufg_KMSKeyArn = None,
      ufg_MemorySize = None, ufg_RevisionId = None, ufg_Role = None, ufg_Runtime = None,
      ufg_Timeout = None\<rparr>"

definition updateLambda :: "env \<Rightarrow> functionConfig \<Rightarrow> world \<Rightarrow> error option \<times> world" where
  "updateLambda e conf w =
     (case ioutil_ReadFile e w (getZipOutputPath conf) of
        Inl err \<Rightarrow> (Some err, w)
      | Inr data \<Rightarrow>
          if \<not> new_session e then (Some (RuntimePanic ''session.Must''), w)
          else
            (let codeInput = emptyUpdateFunctionCodeInput
                   \<lparr>ufc_FunctionName := Some (Name conf), ufc_ZipFile := Some data\<rparr>;
                 w1 = log_event (CallUpdateFunctionCode codeInput) w
             in case aws_UpdateFunctionCode e (trace w) codeInput of
                  Inl msg \<Rightarrow> (Some (AwsError msg), w1)
                | Inr lambdaInfo \<Rightarrow>
                    (case fc_FunctionName lambdaInfo of
                       None \<Rightarrow> (Some (RuntimePanic ''nil pointer dereference''), w1)
                     | Some fname \<Rightarrow>
                         (let w2 = logrus_Infof (''updated lambda function '' @ fname) w1
                          in case fc_Handler lambdaInfo of
                               None \<Rightarrow> (Some (RuntimePanic ''nil pointer dereference''), w2)
                             | Some handler \<Rightarrow>
                                 if strings_Compare handler (Name conf) \<noteq> 0 then
                                   (let configInput = emptyUpdateFunctionConfigurationInput
                                          \<lparr>ufg_Handler := Some (Name conf)\<rparr>;
                                        w3 = log_event
                                               (CallUpdateFunctionConfiguration configInput) w2
                                    in case aws_UpdateFunctionConfiguration e (trace w2)
                                              configInput of
                                         Inl msg \<Rightarrow> (Some (AwsError msg), w3)
                                       | Inr ack \<Rightarrow>
                                           (None,
                                            logrus_Infof
                                              (''updated handler name for lambda '' @ fname
                                                 @ '' to prevent issues'') w3))
                                 else (None, w2)))))"

subsection \<open>main\<close>

text \<open>Deferred calls, in the order they run (last deferred first).\<close>

fun runDeferred :: "(world \<Rightarrow> outcome \<times> world) list \<Rightarrow> world \<Rightarrow> outcome \<times> world" where
  "runDeferred [] w = (Returned, w)"
| "runDeferred (d # ds) w =
     (case d w of
        (Returned, w') \<Rightarrow> runDeferred ds w'
      | (Exited, w') \<Rightarrow> (Exited, w')
      | (Panicked, w') \<Rightarrow> (Panicked, w'))"

text \<open>The function literal that \<^verbatim>\<open>main\<close> calls for each file found.\<close>

definition processFile :: "env \<Rightarrow> string \<Rightarrow> world \<Rightarrow> outcome \<times> world" where
  "processFile e file w =
     (case parseFunctionConfig e w file of
        Inl err \<Rightarrow> logrus_Fatalf err (''error while reading function config at '' @ file) w
      | Inr config \<Rightarrow>
          (case build e config w of
             (Some err, w1) \<Rightarrow>
               logrus_Fatalf err (''error while compiling for config at '' @ file) w1
           | (None, w1) \<Rightarrow>
               (case zipBuild e config w1 of
                  (Some err, w2) \<Rightarrow>
                    logrus_Fatalf err (''error while building function config at '' @ file) w2
                | (None, w2) \<Rightarrow>
                    (case updateLambda e config w2 of
                       (Some err, w3) \<Rightarrow>
                         if is_panic err then
                           (case runDeferred
                                   [mustDeleteZipFile e config, mustDeleteBuildFile e config] w3 of
                              (Returned, w4) \<Rightarrow> (Panicked, w4)
                            | (Exited, w4) \<Rightarrow> (Exited, w4)
                            | (Panicked, w4) \<Rightarrow> (Panicked, w4))
                         else
                           logrus_Fatalf err
                             (''error while updating Lambda-Function for config at '' @ file) w3
                     | (None, w3) \<Rightarrow>
                         runDeferred
                           [mustDeleteZipFile e config, mustDeleteBuildFile e config] w3))))"

text \<open>The \<^verbatim>\<open>for _, file := range files\<close> loop.\<close>

fun forFiles :: "env \<Rightarrow> string list \<Rightarrow> world \<Rightarrow> outcome \<times> world" where
  "forFiles e [] w = (Returned, w)"
| "forFiles e (file # rest) w =
     (case processFile e file w of
        (Returned, w') \<Rightarrow> forFiles e rest w'
      | (Exited, w') \<Rightarrow> (Exited, w')
      | (Panicked, w') \<Rightarrow> (Panicked, w'))"

definition main :: "env \<Rightarrow> world \<Rightarrow> outcome \<times> world" where
  "main e w =
     (case getwd e of
        Inl msg \<Rightarrow> logrus_Fatalf (FsError msg ''.'') ''error while reading current directory'' w
      | Inr currentDir \<Rightarrow>
          (case findFunctionConfigs e currentDir of
             Inl err \<Rightarrow>
               if is_panic err then (Panicked, w)
               else logrus_Fatalf err ''error while reading function files directory'' w
           | Inr fs \<Rightarrow> forFiles e fs w))"

section \<open>What the specification says, as predicates\<close>

subsection \<open>Descriptor documents of the expected shape\<close>

text \<open>
  The shape the descriptor format asks for: no content at all, or a mapping whose keys
  are scalars and whose \<^verbatim>\<open>name\<close> and \<^verbatim>\<open>fileName\<close>, where present, are scalars too. Any
  other key may carry any value.
\<close>

fun scalar_or_null :: "yaml \<Rightarrow> bool" where
  "scalar_or_null YNull = True"
| "scalar_or_null (YScalar s) = True"
| "scalar_or_null (YSeq xs) = False"
| "scalar_or_null (YMap kvs) = False"

definition known_field :: "yaml \<times> yaml \<Rightarrow> bool" where
  "known_field kv = (fst kv = YScalar ''name'' \<or> fst kv = YScalar ''fileName'')"

definition field_ok :: "yaml \<times> yaml \<Rightarrow> bool" where
  "field_ok kv =
     (scalar_or_null (fst kv) \<and> (if known_field kv then scalar_or_null (snd kv) else True))"

fun expected_shape :: "yaml \<Rightarrow> bool" where
  "expected_shape YNull = True"
| "expected_shape (YScalar s) = False"
| "expected_shape (YSeq xs) = False"
| "expected_shape (YMap kvs) = list_all field_ok kvs"

definition has_key :: "string \<Rightarrow> (yaml \<times> yaml) list \<Rightarrow> bool" where
  "has_key k kvs = list_ex (\<lambda>kv. fst kv = YScalar k) kvs"

fun is_decode_error :: "error \<Rightarrow> bool" where
  "is_decode_error (YamlSyntaxError msg) = True"
| "is_decode_error (YamlTypeError n) = True"
| "is_decode_error err = False"

subsection \<open>Discovery: the entries of a tree\<close>

text \<open>
  The entries of a tree: \<open>entry_at path name node p nm\<close> says that the tree \<open>node\<close>, found
  at \<open>path\<close> under the base name \<open>name\<close>, has an entry (itself, or one anywhere below it)
  whose full path is \<open>p\<close> and whose base name is \<open>nm\<close>.
\<close>

inductive entry_at :: "string \<Rightarrow> string \<Rightarrow> fsnode \<Rightarrow> string \<Rightarrow> string \<Rightarrow> bool" where
  self: "entry_at path name node path name"
| below: "(n, c) \<in> set entries \<Longrightarrow> entry_at (filepath_Join path n) n c p nm \<Longrightarrow>
          entry_at path name (DirNode entries) p nm"

text \<open>A tree the walk can read to the end: every entry can be inspected, every directory listed.\<close>

fun readable :: "fsnode \<Rightarrow> bool"
  and readable_entries :: "(string \<times> fsnode) list \<Rightarrow> bool"
where
  "readable FileNode = True"
| "readable (DirNode entries) = readable_entries entries"
| "readable DirUnreadable = False"
| "readable LstatFails = False"
| "readable_entries [] = True"
| "readable_entries ((n, c) # rest) = (readable c \<and> readable_entries rest)"

text \<open>
  A tree as a file system has it: the names in a directory are not empty, hold no slash,
  are neither \<^verbatim>\<open>.\<close> nor \<^verbatim>\<open>..\<close>, and differ from each other.
\<close>

definition proper_name :: "string \<Rightarrow> bool" where
  "proper_name n = (n \<noteq> [] \<and> CHR ''/'' \<notin> set n \<and> n \<noteq> ''.'' \<and> n \<noteq> ''..'')"

fun wf_node :: "fsnode \<Rightarrow> bool"
  and wf_entries :: "(string \<times> fsnode) list \<Rightarrow> bool"
where
  "wf_node (DirNode entries) = wf_entries entries"
| "wf_node FileNode = True"
| "wf_node DirUnreadable = True"
| "wf_node LstatFails = True"
| "wf_entries [] = True"
| "wf_entries ((n, c) # rest) =
     (proper_name n \<and> n \<notin> fst ` set rest \<and> wf_node c \<and> wf_entries rest)"

text \<open>The marker entries of a tree, directories before their entries.\<close>

fun markers :: "string \<Rightarrow> string \<Rightarrow> fsnode \<Rightarrow> string list"
  and markers_in :: "string \<Rightarrow> (string \<times> fsnode) list \<Rightarrow> string list"
where
  "markers path name (DirNode entries) =
     (if name = ''.function.yaml'' then [path] else []) @ markers_in path entries"
| "markers path name FileNode = (if name = ''.function.yaml'' then [path] else [])"
| "markers path name DirUnreadable = (if name = ''.function.yaml'' then [path] else [])"
| "markers path name LstatFails = (if name = ''.function.yaml'' then [path] else [])"
| "markers_in path [] = []"
| "markers_in path ((n, c) # rest) = markers (filepath_Join path n) n c @ markers_in path rest"

subsection \<open>Notions for the proofs about paths\<close>

text \<open>
  What every state of the cleaner satisfies: proper names after the leading \<^verbatim>\<open>..\<close>
  elements, and no leading \<^verbatim>\<open>..\<close> element in a rooted path.
\<close>

definition good_state :: "bool \<Rightarrow> nat \<times> string list \<Rightarrow> bool" where
  "good_state r st = ((\<forall>s\<in>set (snd st). proper_name s) \<and> (r \<longrightarrow> fst st = 0))"

text \<open>What joining puts before a proper name: it depends on the directory only.\<close>

definition join_prefix :: "string \<Rightarrow> string" where
  "join_prefix dir =
     (if rooted dir then ''/'' else []) @
     (if clean_out (clean_state dir) = [] then [] else clean_out (clean_state dir) @ ''/'')"

subsection \<open>The calls to the platform\<close>

text \<open>The SDK calls a trace records, in order.\<close>

fun config_calls :: "event list \<Rightarrow> UpdateFunctionConfigurationInput list" where
  "config_calls [] = []"
| "config_calls (CallUpdateFunctionConfiguration r # evs) = r # config_calls evs"
| "config_calls (ev # evs) = config_calls evs"

fun code_calls :: "event list \<Rightarrow> UpdateFunctionCodeInput list" where
  "code_calls [] = []"
| "code_calls (CallUpdateFunctionCode r # evs) = r # code_calls evs"
| "code_calls (ev # evs) = code_calls evs"

section \<open>Test doubles\<close>

text \<open>
  A compiler, an archive library and a platform that always succeed, a parser that
  knows three documents, and a few files: the concrete inputs of the examples below.
\<close>

definition stub_yaml_parse :: "bytes \<Rightarrow> string + yaml option" where
  "stub_yaml_parse data =
     (if data = ''{name: foo, fileName: foo.go}'' then
        Inr (Some (YMap [(YScalar ''name'', YScalar ''foo''),
                         (YScalar ''fileName'', YScalar ''foo.go'')]))
      else if data = ''{name: bar, runtime: go1.x}'' then
        Inr (Some (YMap [(YScalar ''name'', YScalar ''bar''),
                         (YScalar ''runtime'', YScalar ''go1.x'')]))
      else if data = [] then Inr None
      else Inl ''yaml: did not find expected node content'')"

definition stub_go :: "string \<Rightarrow> string list \<Rightarrow> (string \<rightharpoonup> bytes) \<Rightarrow> string + (string \<rightharpoonup> bytes)" where
  "stub_go name args fs =
     (case args of
        [cmd, flag, outputPath, sourcePath] \<Rightarrow>
          (case fs sourcePath of
             None \<Rightarrow> Inl ''exit status 1''
           | Some code \<Rightarrow> Inr (fs(outputPath \<mapsto> ''ELF'' @ code)))
      | _ \<Rightarrow> Inl ''exit status 2'')"

definition stub_zip_bytes :: "(zip_header \<times> bytes) list \<Rightarrow> bytes" where
  "stub_zip_bytes entries = concat (map (\<lambda>(h, d). ''PK'' @ zh_Name h @ '':'' @ d) entries)"

definition stub_zip_read :: "bytes \<Rightarrow> (zip_header \<times> bytes) list option" where
  "stub_zip_read b =
     (if prefix ''PK'' b then
        Some [(\<lparr>zh_Name = takeWhile (\<lambda>c. c \<noteq> CHR '':'') (drop 2 b), zh_Method = Deflate,
                zh_Size = length (drop 1 (dropWhile (\<lambda>c. c \<noteq> CHR '':'') (drop 2 b)))\<rparr>,
               drop 1 (dropWhile (\<lambda>c. c \<noteq> CHR '':'') (drop 2 b)))]
      else None)"

definition stub_env :: env where
  "stub_env =
     \<lparr>getwd = Inr ''/work'',
      tree = DirNode [(''bar'', DirNode [(''.function.yaml'', FileNode)]),
                      (''foo'', DirNode [(''.function.yaml'', FileNode), (''foo.go'', FileNode)]),
                      (''notes.txt'', FileNode)],
      fs_fault = (\<lambda>op p. None),
      yaml_parse = stub_yaml_parse,
      exec_Run = stub_go,
      zip_bytes = stub_zip_bytes,
      zip_read = stub_zip_read,
      new_session = True,
      aws_UpdateFunctionCode =
        (\<lambda>tr input. Inr \<lparr>fc_FunctionName = ufc_FunctionName input, fc_Handler = Some ''main''\<rparr>),
      aws_UpdateFunctionConfiguration =
        (\<lambda>tr input. Inr \<lparr>fc_FunctionName = Some ''foo'', fc_Handler = ufg_Handler input\<rparr>)\<rparr>"

definition stub_world :: world where
  "stub_world =
     \<lparr>files = [''/work/foo/.function.yaml'' \<mapsto> ''{name: foo, fileName: foo.go}'',
               ''/work/foo/foo.go'' \<mapsto> ''package main'',
               ''/work/bar/.function.yaml'' \<mapsto> ''{name: bar, runtime: go1.x}'',
               ''/a/b/.function.yaml'' \<mapsto> ''{name: foo, fileName: foo.go}'',
               ''/a/.function.yaml.d/.function.yaml'' \<mapsto> ''{name: foo, fileName: foo.go}''],
      trace = []\<rparr>"

text \<open>
  More doubles: a platform that refuses the upload, one that reports the handler the
  descriptor names, a parsed descriptor, and the files once it is built and packaged.
\<close>

definition failing_platform_env :: env where
  "failing_platform_env =
     stub_env\<lparr>aws_UpdateFunctionCode := (\<lambda>tr input. Inl ''AccessDeniedException'')\<rparr>"

definition foo_config :: functionConfig where
  "foo_config = \<lparr>Name = ''foo'', FileName = ''foo.go'', Path = ''/work/foo''\<rparr>"

definition packaged_world :: world where
  "packaged_world =
     stub_world\<lparr>files := (files stub_world)(''/work/foo/foo'' \<mapsto> ''ELFpackage main'',
                                            ''/work/foo/foo.zip'' \<mapsto> ''PKfoo:ELFpackage main'')\<rparr>"

definition same_handler_env :: env where
  "same_handler_env =
     stub_env\<lparr>aws_UpdateFunctionCode :=
       (\<lambda>tr input. Inr \<lparr>fc_FunctionName = ufc_FunctionName input,
                          fc_Handler = ufc_FunctionName input\<rparr>)\<rparr>"

section \<open>Properties\<close>

subsection \<open>Strings\<close>

lemma strings_Compare_eq: "strings_Compare a b = 0 \<longleftrightarrow> a = b"
  by (induction a b rule: strings_Compare.induct) auto

lemma strings_Replace1_self: "old \<noteq> [] \<Longrightarrow> strings_Replace1 old old new = new"
  by (cases old) simp_all

text \<open>
  When the only occurrence of \<open>old\<close> in \<open>dir @ old\<close> is the trailing one, replacing the
  first occurrence by nothing strips it.
\<close>

lemma strings_Replace1_trailing:
  assumes "old \<noteq> []" and "\<not> (\<exists>u v. v \<noteq> [] \<and> dir @ old = u @ old @ v)"
  shows "strings_Replace1 (dir @ old) old [] = dir"
  using assms
proof (induction dir)
  case Nil
  then show ?case by (simp add: strings_Replace1_self)
next
  case (Cons d ds)
  have no_prefix: "\<not> prefix old (d # ds @ old)"
  proof
    assume "prefix old (d # ds @ old)"
    then obtain v where v: "d # ds @ old = old @ v" by (auto simp: prefix_def)
    then have "length (d # ds @ old) = length (old @ v)" by simp
    then have "v \<noteq> []" by auto
    with v Cons.prems(2) show False by (metis append_Cons append_Nil)
  qed
  have "\<not> (\<exists>u v. v \<noteq> [] \<and> ds @ old = u @ old @ v)"
  proof
    assume "\<exists>u v. v \<noteq> [] \<and> ds @ old = u @ old @ v"
    then obtain u v where "v \<noteq> []" and "ds @ old = u @ old @ v" by blast
    then have "v \<noteq> [] \<and> (d # ds) @ old = (d # u) @ old @ v" by simp
    with Cons.prems(2) show False by blast
  qed
  with Cons.IH Cons.prems(1) have "strings_Replace1 (ds @ old) old [] = ds" by blast
  with no_prefix show ?case by simp
qed

subsection \<open>Discovery\<close>

lemma visit_entry:
  "visit path (Some \<lparr>fi_Name = name, fi_IsDir = d\<rparr>) None fs =
     (None, fs @ (if name = ''.function.yaml'' then [path] else []))"
  by (simp add: visit_def strings_Compare_eq)

lemma visit_error: "visit path info (Some err) fs = (Some err, fs)"
  by (simp add: visit_def)

lemma walk_readable:
  "readable t \<Longrightarrow> walk path name t visit fs = (None, fs @ markers path name t)"
  "readable_entries es \<Longrightarrow> walk_names path es visit fs = (None, fs @ markers_in path es)"
proof (induction path name t and path es arbitrary: fs and fs rule: markers_markers_in.induct)
  case (1 path name entries)
  then show ?case by (simp add: visit_entry)
next
  case (6 path n c rest)
  then show ?case by simp
qed (simp_all add: visit_entry)

lemma walk_unreadable:
  "\<not> readable t \<Longrightarrow> \<exists>m q fs'. walk path name t visit fs = (Some (FsError m q), fs')"
  "\<not> readable_entries es \<Longrightarrow> \<exists>m q fs'. walk_names path es visit fs = (Some (FsError m q), fs')"
proof (induction path name t and path es arbitrary: fs and fs rule: markers_markers_in.induct)
  case (1 path name entries)
  then show ?case by (simp add: visit_entry)
next
  case (6 path n c rest)
  show ?case
  proof (cases "readable c")
    case True
    with 6 show ?thesis by (simp add: walk_readable)
  next
    case False
    from 6(1) [OF False] obtain m q fs' where
      "walk (filepath_Join path n) n c visit fs = (Some (FsError m q), fs')" by blast
    then show ?thesis by simp
  qed
qed (simp_all add: visit_error)

lemma findFunctionConfigs_readable:
  "readable (tree e) \<Longrightarrow>
   findFunctionConfigs e root = Inr (markers root (basename root) (tree e))"
  by (simp add: findFunctionConfigs_def filepath_Walk_def walk_readable)

lemma findFunctionConfigs_unreadable:
  assumes "\<not> readable (tree e)"
  shows "\<exists>m q. findFunctionConfigs e root = Inl (FsError m q)"
proof -
  from walk_unreadable(1) [OF assms] obtain m q fs' where
    "walk root (basename root) (tree e) visit [] = (Some (FsError m q), fs')" by blast
  then show ?thesis by (simp add: findFunctionConfigs_def filepath_Walk_def)
qed

lemma markers_sound:
  "q \<in> set (markers path name t) \<Longrightarrow> entry_at path name t q ''.function.yaml''"
  "q \<in> set (markers_in path es) \<Longrightarrow>
     \<exists>n c. (n, c) \<in> set es \<and> entry_at (filepath_Join path n) n c q ''.function.yaml''"
proof (induction path name t and path es rule: markers_markers_in.induct)
  case (1 path name entries)
  then show ?case by (auto split: if_splits intro: entry_at.intros)
next
  case (6 path n c rest)
  then show ?case by auto
qed (auto split: if_splits intro: entry_at.intros)

lemma markers_in_member:
  "(n, c) \<in> set es \<Longrightarrow> set (markers (filepath_Join path n) n c) \<subseteq> set (markers_in path es)"
  by (induction es) auto

lemma markers_self: "name = ''.function.yaml'' \<Longrightarrow> path \<in> set (markers path name t)"
  by (cases t) simp_all

lemma markers_complete:
  "entry_at path name t q nm \<Longrightarrow> nm = ''.function.yaml'' \<Longrightarrow> q \<in> set (markers path name t)"
proof (induction rule: entry_at.induct)
  case (self path name node)
  then show ?case by (simp add: markers_self)
next
  case (below n c entries path p nm name)
  then show ?case using markers_in_member [of n c entries path] by auto
qed

lemma set_markers:
  "set (markers path name t) = {q. entry_at path name t q ''.function.yaml''}"
  using markers_sound(1) markers_complete by blast

text \<open>Paths: splitting, joining and cleaning.\<close>

lemma split_slash_nonempty: "split_slash s \<noteq> []"
  by (cases s) (auto split: list.splits)

lemma split_slash_append:
  "split_slash (a @ CHR ''/'' # b) = split_slash a @ split_slash b"
proof (induction a)
  case Nil
  then show ?case by simp
next
  case (Cons c a)
  obtain s ss where "split_slash a = s # ss"
    using split_slash_nonempty [of a] by (cases "split_slash a") auto
  with Cons show ?case by simp
qed

lemma split_slash_single: "CHR ''/'' \<notin> set n \<Longrightarrow> split_slash n = [n]"
  by (induction n) auto

lemma split_slash_noslash: "s \<in> set (split_slash p) \<Longrightarrow> CHR ''/'' \<notin> set s"
proof (induction p arbitrary: s)
  case Nil
  then show ?case by simp
next
  case (Cons c p)
  obtain t ts where t: "split_slash p = t # ts"
    using split_slash_nonempty [of p] by (cases "split_slash p") auto
  with Cons show ?case by (auto split: if_splits)
qed

lemma join_slash_snoc:
  "join_slash (S @ [n]) = (if S = [] then n else join_slash S @ ''/'' @ n)"
  by (induction S rule: join_slash.induct) auto

lemma join_slash_Cons:
  "S \<noteq> [] \<Longrightarrow> join_slash (s # S) = s @ CHR ''/'' # join_slash S"
  by (cases S) auto

lemma split_join:
  "S \<noteq> [] \<Longrightarrow> \<forall>s\<in>set S. CHR ''/'' \<notin> set s \<Longrightarrow> split_slash (join_slash S) = S"
proof (induction S rule: join_slash.induct)
  case 1
  then show ?case by simp
next
  case (2 s)
  then show ?case by (simp add: split_slash_single)
next
  case (3 s t ss)
  have "split_slash (s @ CHR ''/'' # join_slash (t # ss)) = split_slash s @ split_slash (join_slash (t # ss))"
    by (rule split_slash_append)
  with 3 show ?case by (simp add: split_slash_single)
qed

lemma clean_step_good:
  "good_state r st \<Longrightarrow> CHR ''/'' \<notin> set seg \<Longrightarrow> good_state r (clean_step r st seg)"
  by (cases st) (auto simp add: good_state_def proper_name_def dest: in_set_butlastD)

lemma foldl_clean_step_good:
  "good_state r st \<Longrightarrow> \<forall>s\<in>set segs. CHR ''/'' \<notin> set s \<Longrightarrow>
   good_state r (foldl (clean_step r) st segs)"
  by (induction segs arbitrary: st) (simp_all add: clean_step_good)

lemma clean_state_good: "good_state (rooted p) (clean_state p)"
  unfolding clean_state_def
  by (rule foldl_clean_step_good) (auto simp add: good_state_def dest: split_slash_noslash)

lemma foldl_push_proper:
  "\<forall>s\<in>set segs. proper_name s \<Longrightarrow>
   foldl (clean_step r) (u, acc) segs = (u, acc @ segs)"
  by (induction segs arbitrary: acc) (auto simp add: proper_name_def)

lemma foldl_push_ups:
  "foldl (clean_step False) (u, []) (replicate k ''..'') = (u + k, [])"
  by (induction k arbitrary: u) auto

lemma clean_out_empty: "good_state r st \<Longrightarrow> clean_out st = [] \<longleftrightarrow> st = (0, [])"
proof (cases st)
  case (Pair u segs)
  assume g: "good_state r st"
  show ?thesis
  proof (cases u)
    case 0
    show ?thesis
    proof (cases segs)
      case Nil
      with 0 Pair show ?thesis by (simp add: clean_out_def)
    next
      case (Cons s ss)
      with g Pair have "s \<noteq> []" by (simp add: good_state_def proper_name_def)
      with 0 Pair Cons show ?thesis by (cases ss) (simp_all add: clean_out_def)
    qed
  next
    case (Suc k)
    with Pair show ?thesis by (cases "replicate k ''..'' @ segs") (simp_all add: clean_out_def)
  qed
qed


lemma rooted_append: "dir \<noteq> [] \<Longrightarrow> rooted (dir @ rest) = rooted dir"
  by (cases dir) (simp_all add: rooted_def)

lemma proper_name_not_rooted: "proper_name n \<Longrightarrow> \<not> rooted n"
  by (cases n) (auto simp add: rooted_def proper_name_def)

lemma clean_step_proper: "proper_name n \<Longrightarrow> clean_step r st n = (fst st, snd st @ [n])"
  by (cases st) (simp add: proper_name_def)

lemma clean_state_snoc:
  assumes "dir \<noteq> []" and "proper_name n"
  shows "clean_state (dir @ ''/'' @ n) = (fst (clean_state dir), snd (clean_state dir) @ [n])"
proof -
  have "split_slash (dir @ ''/'' @ n) = split_slash dir @ [n]"
    using assms(2) split_slash_append [of dir n]
    by (simp add: split_slash_single proper_name_def)
  then show ?thesis
    using assms by (simp add: clean_state_def rooted_append clean_step_proper)
qed

lemma clean_state_proper: "proper_name n \<Longrightarrow> clean_state n = (0, [n])"
  by (simp add: clean_state_def split_slash_single proper_name_def)

lemma clean_state_Nil: "clean_state [] = (0, [])"
  by (simp add: clean_state_def)

lemma clean_out_snoc:
  "clean_out (u, segs @ [n]) =
     (if u = 0 \<and> segs = [] then n else clean_out (u, segs) @ ''/'' @ n)"
  using join_slash_snoc [of "replicate u ''..'' @ segs" n] by (simp add: clean_out_def)

lemma clean_out_snoc_nonempty: "n \<noteq> [] \<Longrightarrow> clean_out (u, segs @ [n]) \<noteq> []"
  by (simp add: clean_out_snoc)

text \<open>Joining a proper name to a directory puts the name after a prefix the directory fixes.\<close>

lemma Join_prefix:
  assumes "proper_name n"
  shows "filepath_Join dir n = join_prefix dir @ n"
proof (cases "dir = []")
  case True
  from assms have n: "n \<noteq> []" by (simp add: proper_name_def)
  have nr: "\<not> rooted []" by (simp add: rooted_def)
  have c: "filepath_Clean n = n"
    using n assms
    by (simp add: filepath_Clean_def clean_state_proper proper_name_not_rooted clean_out_def)
  have "join_prefix [] = []"
    using nr by (simp add: join_prefix_def clean_state_Nil clean_out_def)
  with True n c show ?thesis by (simp add: filepath_Join_def)
next
  case False
  obtain u segs where st: "clean_state dir = (u, segs)" by (cases "clean_state dir")
  from assms have n: "n \<noteq> []" by (simp add: proper_name_def)
  have e: "clean_out (u, segs) = [] \<longleftrightarrow> u = 0 \<and> segs = []"
    using clean_out_empty [OF clean_state_good [of dir]] st by simp
  have "clean_state (dir @ ''/'' @ n) = (u, segs @ [n])"
    using clean_state_snoc [OF False assms] st by simp
  with False n st e show ?thesis
    by (simp add: filepath_Join_def filepath_Clean_def join_prefix_def rooted_append
          clean_out_snoc)
qed

text \<open>A cleaned output, read again, gives the state it was written from.\<close>

lemma proper_name_hd: "proper_name s \<Longrightarrow> s \<noteq> [] \<and> hd s \<noteq> CHR ''/''"
  by (cases s) (auto simp add: proper_name_def)

lemma join_slash_hd:
  "a \<noteq> [] \<Longrightarrow> join_slash (a # as) \<noteq> [] \<and> hd (join_slash (a # as)) = hd a"
  by (cases as) simp_all

lemma reparse:
  assumes g: "good_state r (u, segs)" and ne: "(u, segs) \<noteq> (0, [])"
    and x: "x = (if r then ''/'' else []) @ clean_out (u, segs)"
  shows "rooted x = r \<and> clean_state x = (u, segs)"
proof -
  define S where "S = replicate u ''..'' @ segs"
  have S: "S \<noteq> []" using ne by (auto simp add: S_def)
  have props: "\<forall>s\<in>set segs. proper_name s" using g by (simp add: good_state_def)
  have dd: "CHR ''/'' \<notin> set ''..''" by simp
  have noslash: "\<forall>s\<in>set S. CHR ''/'' \<notin> set s"
  proof
    fix s assume "s \<in> set S"
    then have "s = ''..'' \<or> s \<in> set segs" by (auto simp add: S_def)
    then show "CHR ''/'' \<notin> set s"
    proof
      assume "s = ''..''" with dd show ?thesis by blast
    next
      assume "s \<in> set segs"
      with props have "proper_name s" by blast
      then show ?thesis by (simp add: proper_name_def)
    qed
  qed
  have sj: "split_slash (join_slash S) = S" using S noslash by (rule split_join)
  have hdS: "hd S \<noteq> [] \<and> hd (hd S) \<noteq> CHR ''/''"
  proof (cases u)
    case 0
    with ne obtain s ss where segs: "segs = s # ss" by (cases segs) auto
    with props have "proper_name s" by simp
    then have "s \<noteq> [] \<and> hd s \<noteq> CHR ''/''" by (rule proper_name_hd)
    with 0 segs show ?thesis by (simp add: S_def)
  next
    case (Suc k)
    then show ?thesis by (simp add: S_def)
  qed
  obtain a as where Sa: "S = a # as" using S by (cases S) auto
  with hdS have a: "a \<noteq> []" "hd a \<noteq> CHR ''/''" by simp_all
  from join_slash_hd [OF a(1), of as] a(2) Sa
  have hdj: "join_slash S \<noteq> []" "hd (join_slash S) \<noteq> CHR ''/''" by simp_all
  have co: "clean_out (u, segs) = join_slash S" by (simp add: clean_out_def S_def)
  show ?thesis
  proof (cases r)
    case True
    with g have u: "u = 0" by (simp add: good_state_def)
    then have Ss: "S = segs" by (simp add: S_def)
    from True x co have xr: "x = CHR ''/'' # join_slash S" by simp
    then have root: "rooted x" by (simp add: rooted_def)
    have "split_slash x = [] # S" unfolding xr using sj by simp
    then have "clean_state x = foldl (clean_step True) (0, []) segs"
      using root Ss by (simp add: clean_state_def)
    also have "\<dots> = (0, segs)" using props foldl_push_proper [of segs True 0 "[]"] by simp
    finally show ?thesis using root True u by simp
  next
    case False
    from False x co have xr: "x = join_slash S" by simp
    with hdj have root: "\<not> rooted x" by (simp add: rooted_def)
    have "clean_state x = foldl (clean_step False) (0, []) S"
      using root by (simp add: clean_state_def xr sj)
    also have "\<dots> = foldl (clean_step False) (foldl (clean_step False) (0, []) (replicate u ''..'')) segs"
      by (simp only: S_def foldl_append)
    also have "\<dots> = foldl (clean_step False) (u, []) segs"
      using foldl_push_ups [of 0 u] by simp
    also have "\<dots> = (u, segs)" using props foldl_push_proper [of segs False u "[]"] by simp
    finally show ?thesis using root False by simp
  qed
qed

lemma Join_state:
  assumes "proper_name n"
  shows "rooted (filepath_Join dir n) = rooted dir
       \<and> clean_state (filepath_Join dir n) = (fst (clean_state dir), snd (clean_state dir) @ [n])
       \<and> filepath_Join dir n =
           (if rooted dir then ''/'' else []) @
           clean_out (fst (clean_state dir), snd (clean_state dir) @ [n])"
proof -
  obtain u segs where st: "clean_state dir = (u, segs)" by (cases "clean_state dir")
  have g: "good_state (rooted dir) (u, segs @ [n])"
    using clean_state_good [of dir] st assms by (simp add: good_state_def)
  have e: "clean_out (u, segs) = [] \<longleftrightarrow> u = 0 \<and> segs = []"
    using clean_out_empty [OF clean_state_good [of dir]] st by simp
  have x: "filepath_Join dir n = (if rooted dir then ''/'' else []) @ clean_out (u, segs @ [n])"
    using e by (simp add: Join_prefix [OF assms] join_prefix_def st clean_out_snoc)
  from reparse [OF g _ x] st x show ?thesis by simp
qed

lemma Join_clean:
  assumes "proper_name n"
  shows "filepath_Clean (filepath_Join dir n) = filepath_Join dir n"
proof -
  from assms have n: "n \<noteq> []" by (simp add: proper_name_def)
  define x where "x = filepath_Join dir n"
  define st where "st = (fst (clean_state dir), snd (clean_state dir) @ [n])"
  from Join_state [OF assms, of dir]
  have r: "rooted x = rooted dir" and c: "clean_state x = st"
    and v: "x = (if rooted dir then ''/'' else []) @ clean_out st"
    unfolding x_def st_def by blast+
  have o: "clean_out st \<noteq> []" using n by (simp add: st_def clean_out_snoc_nonempty)
  with v have ne: "x \<noteq> []" by auto
  have "filepath_Clean x = (if rooted dir then ''/'' else []) @ clean_out st"
    using ne r c o by (simp add: filepath_Clean_def)
  with v show ?thesis by (simp add: x_def)
qed

lemma Join_prefix_below:
  assumes "proper_name n"
  shows "join_prefix (filepath_Join dir n) = filepath_Join dir n @ ''/''"
proof -
  from assms have n: "n \<noteq> []" by (simp add: proper_name_def)
  define x where "x = filepath_Join dir n"
  define st where "st = (fst (clean_state dir), snd (clean_state dir) @ [n])"
  from Join_state [OF assms, of dir]
  have r: "rooted x = rooted dir" and c: "clean_state x = st"
    and v: "x = (if rooted dir then ''/'' else []) @ clean_out st"
    unfolding x_def st_def by blast+
  have o: "clean_out st \<noteq> []" using n by (simp add: st_def clean_out_snoc_nonempty)
  have "join_prefix x = ((if rooted dir then ''/'' else []) @ clean_out st) @ ''/''"
    using r c o by (simp add: join_prefix_def)
  with v show ?thesis by (simp add: x_def)
qed

lemma Clean_fixed_prefix:
  assumes "filepath_Clean p = p"
  shows "join_prefix p = p @ ''/'' \<or> (p = ''/'' \<and> join_prefix p = ''/'') \<or> (p = ''.'' \<and> join_prefix p = [])"
proof -
  from assms have ne: "p \<noteq> []" by (auto simp add: filepath_Clean_def)
  show ?thesis
  proof (cases "clean_out (clean_state p) = []")
    case True
    with assms ne show ?thesis
      by (auto simp add: filepath_Clean_def join_prefix_def split: if_splits)
  next
    case False
    with assms ne show ?thesis
      by (auto simp add: filepath_Clean_def join_prefix_def split: if_splits)
  qed
qed

text \<open>Distinct paths for distinct entries.\<close>

lemma name_of_prefix:
  assumes "CHR ''/'' \<notin> set n" and "r = [] \<or> hd r = CHR ''/''"
  shows "takeWhile (\<lambda>c. c \<noteq> CHR ''/'') (n @ r) = n"
proof -
  have "takeWhile (\<lambda>c. c \<noteq> CHR ''/'') r = []"
    using assms(2) by (cases r) auto
  moreover have "takeWhile (\<lambda>c. c \<noteq> CHR ''/'') (n @ r) = n @ takeWhile (\<lambda>c. c \<noteq> CHR ''/'') r"
    using assms(1) by (intro takeWhile_append2) auto
  ultimately show ?thesis by simp
qed

lemma names_agree:
  assumes "CHR ''/'' \<notin> set n1" and "CHR ''/'' \<notin> set n2"
    and "r1 = [] \<or> hd r1 = CHR ''/''" and "r2 = [] \<or> hd r2 = CHR ''/''"
    and "n1 @ r1 = n2 @ r2"
  shows "n1 = n2"
  using name_of_prefix [OF assms(1,3)] name_of_prefix [OF assms(2,4)] assms(5) by simp

lemma wf_entries_names: "wf_entries es \<Longrightarrow> n \<in> fst ` set es \<Longrightarrow> proper_name n"
  by (induction es) force+

lemma Join_cancel:
  "proper_name n1 \<Longrightarrow> proper_name n2 \<Longrightarrow>
   filepath_Join path n1 @ r1 = filepath_Join path n2 @ r2 \<Longrightarrow> n1 @ r1 = n2 @ r2"
  by (simp add: Join_prefix)

lemma markers_below:
  "q \<in> set (markers path name t) \<Longrightarrow> wf_node t \<Longrightarrow> join_prefix path = path @ ''/'' \<Longrightarrow>
     q = path \<or> (\<exists>r. q = path @ ''/'' @ r)"
  "q \<in> set (markers_in path es) \<Longrightarrow> wf_entries es \<Longrightarrow>
     \<exists>n r. n \<in> fst ` set es \<and> q = filepath_Join path n @ r \<and> (r = [] \<or> hd r = CHR ''/'')"
proof (induction path name t and path es rule: markers_markers_in.induct)
  case (1 path name entries)
  show ?case
  proof (cases "q = path")
    case True
    then show ?thesis by simp
  next
    case False
    with 1 have "q \<in> set (markers_in path entries)" by (auto split: if_splits)
    with 1 obtain n r where n: "n \<in> fst ` set entries" and q: "q = filepath_Join path n @ r"
      by fastforce
    from 1(3) n have "proper_name n" by (simp add: wf_entries_names)
    then have "filepath_Join path n = join_prefix path @ n" by (rule Join_prefix)
    with q 1(4) show ?thesis by simp
  qed
next
  case (6 path n c rest)
  from 6(3) consider (here) "q \<in> set (markers (filepath_Join path n) n c)"
    | (later) "q \<in> set (markers_in path rest)" by auto
  then show ?case
  proof cases
    case here
    from 6(4) have "proper_name n" and "wf_node c" by simp_all
    from 6(1) [OF here this(2) Join_prefix_below [OF this(1)]] have
      "q = filepath_Join path n \<or> (\<exists>r. q = filepath_Join path n @ ''/'' @ r)" .
    then have "\<exists>r. q = filepath_Join path n @ r \<and> (r = [] \<or> hd r = CHR ''/'')"
      by (metis append_Cons append_Nil2 list.sel(1))
    then show ?thesis by auto
  next
    case later
    from 6(4) have "wf_entries rest" by simp
    from 6(2) [OF later this] show ?thesis by auto
  qed
qed (auto split: if_splits)

text \<open>Every path below the root is a cleaned path.\<close>

lemma markers_clean:
  "q \<in> set (markers path name t) \<Longrightarrow> wf_node t \<Longrightarrow> q = path \<or> filepath_Clean q = q"
  "q \<in> set (markers_in path es) \<Longrightarrow> wf_entries es \<Longrightarrow> filepath_Clean q = q"
proof (induction path name t and path es rule: markers_markers_in.induct)
  case (1 path name entries)
  then show ?case by (auto split: if_splits)
next
  case (6 path n c rest)
  from 6(3) consider (here) "q \<in> set (markers (filepath_Join path n) n c)"
    | (later) "q \<in> set (markers_in path rest)" by auto
  then show ?case
  proof cases
    case here
    from 6(4) have "proper_name n" and "wf_node c" by simp_all
    from 6(1) [OF here this(2)] Join_clean [OF this(1), of path] show ?thesis by auto
  next
    case later
    from 6(4) have "wf_entries rest" by simp
    from 6(2) [OF later this] show ?thesis .
  qed
qed (auto split: if_splits)

lemma markers_in_longer:
  assumes "q \<in> set (markers_in path es)" and "wf_entries es"
  shows "q \<noteq> path"
proof
  assume eq: "q = path"
  from markers_below(2) [OF assms] obtain n r where
    n: "n \<in> fst ` set es" and q: "q = filepath_Join path n @ r" by blast
  from assms(2) n have p: "proper_name n" by (rule wf_entries_names)
  then have ne: "n \<noteq> []" and nd: "n \<noteq> ''.''" by (simp_all add: proper_name_def)
  from q eq Join_prefix [OF p, of path] have path: "path = join_prefix path @ n @ r" by simp
  from markers_clean(2) [OF assms] eq have "filepath_Clean path = path" by simp
  then consider (plain) "join_prefix path = path @ ''/''"
    | (root) "path = ''/''" "join_prefix path = ''/''"
    | (dot) "path = ''.''" "join_prefix path = []"
    using Clean_fixed_prefix by blast
  then show False
  proof cases
    case plain
    with path have "length path = length (path @ ''/'' @ n @ r)" by simp
    then show False by simp
  next
    case root
    with path ne show False by simp
  next
    case dot
    with path have "''.'' = n @ r" by simp
    with ne nd show False by (cases n) auto
  qed
qed

lemma markers_distinct:
  "wf_node t \<Longrightarrow> distinct (markers path name t)"
  "wf_entries es \<Longrightarrow> distinct (markers_in path es)"
proof (induction path name t and path es rule: markers_markers_in.induct)
  case (1 path name entries)
  then have "distinct (markers_in path entries)" and "path \<notin> set (markers_in path entries)"
    using markers_in_longer [of path path entries] by auto
  then show ?case by simp
next
  case (6 path n c rest)
  from 6(3) have wf: "proper_name n" "n \<notin> fst ` set rest" "wf_node c" "wf_entries rest"
    by simp_all
  have "set (markers (filepath_Join path n) n c) \<inter> set (markers_in path rest) = {}"
  proof (rule ccontr)
    assume "set (markers (filepath_Join path n) n c) \<inter> set (markers_in path rest) \<noteq> {}"
    then obtain q where q1: "q \<in> set (markers (filepath_Join path n) n c)"
      and q2: "q \<in> set (markers_in path rest)" by blast
    from markers_below(1) [OF q1 wf(3) Join_prefix_below [OF wf(1)]]
    have "q = filepath_Join path n \<or> (\<exists>r. q = filepath_Join path n @ ''/'' @ r)" .
    then obtain r1 where r1: "q = filepath_Join path n @ r1" "r1 = [] \<or> hd r1 = CHR ''/''"
      by (metis append_Cons append_Nil2 list.sel(1))
    from markers_below(2) [OF q2 wf(4)] obtain n2 r2 where
      n2: "n2 \<in> fst ` set rest" and r2: "q = filepath_Join path n2 @ r2" "r2 = [] \<or> hd r2 = CHR ''/''"
      by blast
    from wf_entries_names [OF wf(4) n2] have p2: "proper_name n2" .
    from r1(1) r2(1) have "filepath_Join path n @ r1 = filepath_Join path n2 @ r2" by simp
    then have "n @ r1 = n2 @ r2" by (rule Join_cancel [OF wf(1) p2])
    moreover from wf(1) p2 have "CHR ''/'' \<notin> set n" "CHR ''/'' \<notin> set n2"
      by (simp_all add: proper_name_def)
    ultimately have "n = n2" using r1(2) r2(2) by (auto dest: names_agree)
    with n2 wf(2) show False by simp
  qed
  with 6 wf show ?case by simp
qed simp_all

text \<open>The walk on the tree of the doubles, from a cleaned root and from one that is not.\<close>

lemma stub_tree_markers:
  "markers ''/work'' (basename ''/work'') (tree stub_env)
     = [''/work/bar/.function.yaml'', ''/work/foo/.function.yaml'']"
  by code_simp

lemma findFunctionConfigs_trailing_slash:
  "findFunctionConfigs stub_env ''/work/''
     = Inr [''/work/bar/.function.yaml'', ''/work/foo/.function.yaml'']"
  by code_simp

lemma findFunctionConfigs_dot:
  "findFunctionConfigs stub_env ''.''
     = Inr [''bar/.function.yaml'', ''foo/.function.yaml'']"
  by code_simp

text \<open>
  Claim C5. When the walk meets no entry it cannot inspect and no directory it cannot
  list, discovery returns, for every root, a list of paths that holds exactly the full
  paths of the entries of the tree (the root and everything below it, at any depth) whose
  base name is \<^verbatim>\<open>.function.yaml\<close>; it is empty exactly when there is no such entry; and
  in a tree as a file system has it, no path comes twice: one path for each marker. The
  root is any string: the walk reports the root as it is given and every path below it as
  \<^verbatim>\<open>filepath.Join\<close> cleans it.
\<close>

theorem findFunctionConfigs_exact:
  assumes "readable (tree e)"
  shows "\<exists>fs. findFunctionConfigs e root = Inr fs
            \<and> set fs = {p. entry_at root (basename root) (tree e) p ''.function.yaml''}
            \<and> (fs = [] \<longleftrightarrow> \<not> (\<exists>p. entry_at root (basename root) (tree e) p ''.function.yaml''))
            \<and> (wf_node (tree e) \<longrightarrow> distinct fs)"
proof -
  let ?fs = "markers root (basename root) (tree e)"
  have "findFunctionConfigs e root = Inr ?fs"
    using assms by (rule findFunctionConfigs_readable)
  moreover have s: "set ?fs = {p. entry_at root (basename root) (tree e) p ''.function.yaml''}"
    by (rule set_markers)
  moreover have "?fs = [] \<longleftrightarrow> \<not> (\<exists>p. entry_at root (basename root) (tree e) p ''.function.yaml'')"
    using s by (metis (mono_tags, lifting) empty_Collect_eq set_empty)
  moreover have "wf_node (tree e) \<longrightarrow> distinct ?fs"
    by (simp add: markers_distinct)
  ultimately show ?thesis by blast
qed

text \<open>The tree of the doubles: two descriptors, found in the order of the listing.\<close>

theorem findFunctionConfigs_exact_witness:
  "readable (tree stub_env) \<and> wf_node (tree stub_env)
   \<and> findFunctionConfigs stub_env ''/work''
       = Inr [''/work/bar/.function.yaml'', ''/work/foo/.function.yaml'']
   \<and> {p. entry_at ''/work'' (basename ''/work'') (tree stub_env) p ''.function.yaml''}
       = {''/work/bar/.function.yaml'', ''/work/foo/.function.yaml''}"
proof -
  have r: "readable (tree stub_env)" by (simp add: stub_env_def)
  have w: "wf_node (tree stub_env)" by (simp add: stub_env_def proper_name_def)
  note stub_tree_markers
  with findFunctionConfigs_readable [OF r, of "''/work''"]
  have f: "findFunctionConfigs stub_env ''/work''
       = Inr [''/work/bar/.function.yaml'', ''/work/foo/.function.yaml'']"
    by simp
  from findFunctionConfigs_exact [OF r, of "''/work''"] f
  have "{p. entry_at ''/work'' (basename ''/work'') (tree stub_env) p ''.function.yaml''}
       = set [''/work/bar/.function.yaml'', ''/work/foo/.function.yaml'']"
    by auto
  with r w f show ?thesis by simp
qed

subsection \<open>Decoding a descriptor\<close>

lemma known_field_simps [simp]:
  "known_field (YNull, v) = False"
  "known_field (YScalar s, v) = (s = ''name'' \<or> s = ''fileName'')"
  "known_field (YSeq xs, v) = False"
  "known_field (YMap m, v) = False"
  by (simp_all add: known_field_def)

lemma mappingStruct_errors:
  "fst (mappingStruct kvs (n, out)) = n + length (filter (\<lambda>kv. \<not> field_ok kv) kvs)"
proof (induction kvs arbitrary: n out)
  case Nil
  then show ?case by simp
next
  case (Cons kv kvs)
  obtain k v where kv: "kv = (k, v)" by (cases kv)
  show ?case
    by (cases k; cases v) (simp_all add: kv Cons.IH field_ok_def)
qed

lemma mappingStruct_filter:
  "snd (mappingStruct kvs (n, out)) = snd (mappingStruct (filter known_field kvs) (m, out))"
proof (induction kvs arbitrary: n m out)
  case Nil
  then show ?case by simp
next
  case (Cons kv kvs)
  obtain k v where kv: "kv = (k, v)" by (cases kv)
  show ?case
    by (cases k; cases v; simp add: kv) (auto intro: Cons.IH)
qed

lemma mappingStruct_missing_name:
  "\<not> has_key ''name'' kvs \<Longrightarrow> Name (snd (mappingStruct kvs (n, out))) = Name out"
proof (induction kvs arbitrary: n out)
  case Nil
  then show ?case by simp
next
  case (Cons kv kvs)
  obtain k v where kv: "kv = (k, v)" by (cases kv)
  from Cons.prems have rest: "\<not> has_key ''name'' kvs" and k: "k \<noteq> YScalar ''name''"
    by (simp_all add: has_key_def kv)
  show ?case using k
    by (cases k; cases v; simp add: kv Cons.IH [OF rest])
qed

lemma mappingStruct_missing_fileName:
  "\<not> has_key ''fileName'' kvs \<Longrightarrow> FileName (snd (mappingStruct kvs (n, out))) = FileName out"
proof (induction kvs arbitrary: n out)
  case Nil
  then show ?case by simp
next
  case (Cons kv kvs)
  obtain k v where kv: "kv = (k, v)" by (cases kv)
  from Cons.prems have rest: "\<not> has_key ''fileName'' kvs" and k: "k \<noteq> YScalar ''fileName''"
    by (simp_all add: has_key_def kv)
  show ?case using k
    by (cases k; cases v; simp add: kv Cons.IH [OF rest])
qed

lemma unmarshal_struct_ok: "fst (unmarshal_struct doc out) = 0 \<longleftrightarrow> expected_shape doc"
  by (cases doc) (simp_all add: mappingStruct_errors list_all_iff filter_empty_conv)

text \<open>What \<open>parseFunctionConfig\<close> returns, by the document the parser found.\<close>

lemma parseFunctionConfig_syntax_error:
  "ioutil_ReadFile e w path = Inr data \<Longrightarrow> yaml_parse e data = Inl msg \<Longrightarrow>
   parseFunctionConfig e w path = Inl (YamlSyntaxError msg)"
  by (simp add: parseFunctionConfig_def yaml_Unmarshal_def)

lemma parseFunctionConfig_no_document:
  "ioutil_ReadFile e w path = Inr data \<Longrightarrow> yaml_parse e data = Inr None \<Longrightarrow>
   parseFunctionConfig e w path =
     Inr (zeroConfig\<lparr>Path := strings_Replace1 path ''/.function.yaml'' []\<rparr>)"
  by (simp add: parseFunctionConfig_def yaml_Unmarshal_def)

lemma parseFunctionConfig_shape_ok:
  "ioutil_ReadFile e w path = Inr data \<Longrightarrow> yaml_parse e data = Inr (Some doc) \<Longrightarrow>
   expected_shape doc \<Longrightarrow>
   parseFunctionConfig e w path =
     Inr ((snd (unmarshal_struct doc zeroConfig))
            \<lparr>Path := strings_Replace1 path ''/.function.yaml'' []\<rparr>)"
  using unmarshal_struct_ok [of doc zeroConfig]
  by (cases "unmarshal_struct doc zeroConfig")
     (simp add: parseFunctionConfig_def yaml_Unmarshal_def)

lemma parseFunctionConfig_shape_bad:
  "ioutil_ReadFile e w path = Inr data \<Longrightarrow> yaml_parse e data = Inr (Some doc) \<Longrightarrow>
   \<not> expected_shape doc \<Longrightarrow>
   parseFunctionConfig e w path = Inl (YamlTypeError (fst (unmarshal_struct doc zeroConfig)))"
  using unmarshal_struct_ok [of doc zeroConfig]
  by (cases "unmarshal_struct doc zeroConfig")
     (auto simp add: parseFunctionConfig_def yaml_Unmarshal_def split: nat.splits)

text \<open>
  Claim C9. Given that the descriptor file can be read, parsing fails with a decode error
  exactly when the parser rejects the text or the document is not of the expected shape.
  In a document of the expected shape the fields other than \<^verbatim>\<open>name\<close> and \<^verbatim>\<open>fileName\<close> are
  ignored (the result is that of the document without them), and a missing \<^verbatim>\<open>name\<close> or
  \<^verbatim>\<open>fileName\<close> leaves the empty string in the record; so does a descriptor with no content.
\<close>

theorem parseFunctionConfig_decode_error_iff:
  assumes rd: "ioutil_ReadFile e w path = Inr data"
  shows "((\<exists>err. parseFunctionConfig e w path = Inl err \<and> is_decode_error err) \<longleftrightarrow>
          (case yaml_parse e data of
             Inl msg \<Rightarrow> True
           | Inr None \<Rightarrow> False
           | Inr (Some doc) \<Rightarrow> \<not> expected_shape doc))
       \<and> (\<forall>kvs. yaml_parse e data = Inr (Some (YMap kvs)) \<and> expected_shape (YMap kvs) \<longrightarrow>
             (\<exists>c. parseFunctionConfig e w path = Inr c
                \<and> c = (snd (mappingStruct (filter known_field kvs) (0, zeroConfig)))
                        \<lparr>Path := strings_Replace1 path ''/.function.yaml'' []\<rparr>
                \<and> (\<not> has_key ''name'' kvs \<longrightarrow> Name c = [])
                \<and> (\<not> has_key ''fileName'' kvs \<longrightarrow> FileName c = [])))
       \<and> (yaml_parse e data = Inr None \<or> yaml_parse e data = Inr (Some YNull) \<longrightarrow>
             (\<exists>c. parseFunctionConfig e w path = Inr c \<and> Name c = [] \<and> FileName c = []))"
proof (intro conjI)
  show "(\<exists>err. parseFunctionConfig e w path = Inl err \<and> is_decode_error err) \<longleftrightarrow>
          (case yaml_parse e data of
             Inl msg \<Rightarrow> True
           | Inr None \<Rightarrow> False
           | Inr (Some doc) \<Rightarrow> \<not> expected_shape doc)"
  proof (cases "yaml_parse e data")
    case (Inl msg)
    with rd show ?thesis by (simp add: parseFunctionConfig_syntax_error)
  next
    case (Inr d)
    show ?thesis
    proof (cases d)
      case None
      with rd Inr show ?thesis by (simp add: parseFunctionConfig_no_document)
    next
      case (Some doc)
      with rd Inr show ?thesis
        by (cases "expected_shape doc")
           (simp_all add: parseFunctionConfig_shape_ok parseFunctionConfig_shape_bad)
    qed
  qed
next
  show "\<forall>kvs. yaml_parse e data = Inr (Some (YMap kvs)) \<and> expected_shape (YMap kvs) \<longrightarrow>
             (\<exists>c. parseFunctionConfig e w path = Inr c
                \<and> c = (snd (mappingStruct (filter known_field kvs) (0, zeroConfig)))
                        \<lparr>Path := strings_Replace1 path ''/.function.yaml'' []\<rparr>
                \<and> (\<not> has_key ''name'' kvs \<longrightarrow> Name c = [])
                \<and> (\<not> has_key ''fileName'' kvs \<longrightarrow> FileName c = []))"
  proof (intro allI impI)
    fix kvs
    assume a: "yaml_parse e data = Inr (Some (YMap kvs)) \<and> expected_shape (YMap kvs)"
    have p: "parseFunctionConfig e w path =
        Inr ((snd (mappingStruct kvs (0, zeroConfig)))
               \<lparr>Path := strings_Replace1 path ''/.function.yaml'' []\<rparr>)"
      using parseFunctionConfig_shape_ok [OF rd] a by fastforce
    have f: "snd (mappingStruct kvs (0, zeroConfig)) =
             snd (mappingStruct (filter known_field kvs) (0, zeroConfig))"
      by (rule mappingStruct_filter)
    have n: "\<not> has_key ''name'' kvs \<Longrightarrow> Name (snd (mappingStruct kvs (0, zeroConfig))) = []"
      by (simp add: mappingStruct_missing_name zeroConfig_def)
    have fn: "\<not> has_key ''fileName'' kvs \<Longrightarrow> FileName (snd (mappingStruct kvs (0, zeroConfig))) = []"
      by (simp add: mappingStruct_missing_fileName zeroConfig_def)
    show "\<exists>c. parseFunctionConfig e w path = Inr c
                \<and> c = (snd (mappingStruct (filter known_field kvs) (0, zeroConfig)))
                        \<lparr>Path := strings_Replace1 path ''/.function.yaml'' []\<rparr>
                \<and> (\<not> has_key ''name'' kvs \<longrightarrow> Name c = [])
                \<and> (\<not> has_key ''fileName'' kvs \<longrightarrow> FileName c = [])"
      using p f n fn by simp
  qed
next
  show "yaml_parse e data = Inr None \<or> yaml_parse e data = Inr (Some YNull) \<longrightarrow>
             (\<exists>c. parseFunctionConfig e w path = Inr c \<and> Name c = [] \<and> FileName c = [])"
    using parseFunctionConfig_no_document [OF rd] parseFunctionConfig_shape_ok [OF rd, of YNull]
    by (auto simp: zeroConfig_def)
qed

text \<open>
  The descriptor \<^verbatim>\<open>{name: bar, runtime: go1.x}\<close>: one unknown field, no \<^verbatim>\<open>fileName\<close>.
\<close>

theorem parseFunctionConfig_decode_error_iff_witness:
  "ioutil_ReadFile stub_env stub_world ''/work/bar/.function.yaml'' = Inr ''{name: bar, runtime: go1.x}''
   \<and> parseFunctionConfig stub_env stub_world ''/work/bar/.function.yaml''
       = Inr \<lparr>Name = ''bar'', FileName = [], Path = ''/work/bar''\<rparr>
   \<and> \<not> (\<exists>err. parseFunctionConfig stub_env stub_world ''/work/bar/.function.yaml'' = Inl err
             \<and> is_decode_error err)"
proof -
  have rd: "ioutil_ReadFile stub_env stub_world ''/work/bar/.function.yaml''
              = Inr ''{name: bar, runtime: go1.x}''"
    by (simp add: ioutil_ReadFile_def stub_env_def stub_world_def)
  have doc: "yaml_parse stub_env ''{name: bar, runtime: go1.x}'' =
      Inr (Some (YMap [(YScalar ''name'', YScalar ''bar''), (YScalar ''runtime'', YScalar ''go1.x'')]))"
    by (simp add: stub_env_def stub_yaml_parse_def)
  show ?thesis
    using rd parseFunctionConfig_decode_error_iff [OF rd]
    by (simp add: doc field_ok_def has_key_def zeroConfig_def)
qed

subsection \<open>The directory of a descriptor\<close>

text \<open>
  Claim C2. The claim says that the directory is the descriptor's containing folder, the
  path without its trailing \<^verbatim>\<open>/.function.yaml\<close>. The code removes the first occurrence of
  \<^verbatim>\<open>/.function.yaml\<close>, which is not the trailing one when a directory on the way has a
  name that starts with \<^verbatim>\<open>.function.yaml\<close>: for the descriptor in the folder
  \<^verbatim>\<open>/a/.function.yaml.d\<close> the record's directory is \<^verbatim>\<open>/a.d/.function.yaml\<close>.
\<close>

theorem parseFunctionConfig_strips_first_occurrence:
  "parseFunctionConfig stub_env stub_world ''/a/.function.yaml.d/.function.yaml''
     = Inr \<lparr>Name = ''foo'', FileName = ''foo.go'', Path = ''/a.d/.function.yaml''\<rparr>
   \<and> ''/a.d/.function.yaml'' \<noteq> ''/a/.function.yaml.d''"
  by (simp add: parseFunctionConfig_def ioutil_ReadFile_def yaml_Unmarshal_def stub_env_def
        stub_world_def stub_yaml_parse_def zeroConfig_def)

text \<open>The example of the specification, where the two coincide.\<close>

lemma parseFunctionConfig_spec_example:
  "parseFunctionConfig stub_env stub_world ''/a/b/.function.yaml''
     = Inr \<lparr>Name = ''foo'', FileName = ''foo.go'', Path = ''/a/b''\<rparr>"
  by (simp add: parseFunctionConfig_def ioutil_ReadFile_def yaml_Unmarshal_def stub_env_def
        stub_world_def stub_yaml_parse_def zeroConfig_def)

subsection \<open>Traces\<close>

lemma config_calls_append: "config_calls (xs @ ys) = config_calls xs @ config_calls ys"
  by (induction xs rule: config_calls.induct) simp_all

lemma code_calls_append: "code_calls (xs @ ys) = code_calls xs @ code_calls ys"
  by (induction xs rule: code_calls.induct) simp_all

subsection \<open>The build step\<close>

text \<open>
  Claim C10. The build step starts exactly one subprocess, \<^verbatim>\<open>go\<close> with the arguments
  \<^verbatim>\<open>build\<close>, \<^verbatim>\<open>-o\<close>, directory/name, directory/fileName; it fails with the subprocess's
  error when that fails, and otherwise leaves the files as the compiler left them.
\<close>

theorem build_invokes_compiler:
  "trace (snd (build e conf w)) =
     trace w @ [Exec ''go'' [''build'', ''-o'', Path conf @ ''/'' @ Name conf,
                             Path conf @ ''/'' @ FileName conf]]
   \<and> (case exec_Run e ''go'' [''build'', ''-o'', Path conf @ ''/'' @ Name conf,
                              Path conf @ ''/'' @ FileName conf] (files w) of
        Inl msg \<Rightarrow> fst (build e conf w) = Some (ExecError msg) \<and> files (snd (build e conf w)) = files w
      | Inr fs' \<Rightarrow> fst (build e conf w) = None \<and> files (snd (build e conf w)) = fs')"
  by (simp add: build_def exec_Command_Run_def log_event_def getBuildOutputPath_def
        getFullFilePath_def split: sum.splits)

text \<open>
  With the compiler double, the executable is at \<^verbatim>\<open>/work/foo/foo\<close>.
\<close>

theorem build_invokes_compiler_witness:
  "trace (snd (build stub_env \<lparr>Name = ''foo'', FileName = ''foo.go'', Path = ''/work/foo''\<rparr> stub_world))
     = [Exec ''go'' [''build'', ''-o'', ''/work/foo/foo'', ''/work/foo/foo.go'']]
   \<and> files (snd (build stub_env \<lparr>Name = ''foo'', FileName = ''foo.go'', Path = ''/work/foo''\<rparr> stub_world))
        ''/work/foo/foo'' = Some ''ELFpackage main''"
  using build_invokes_compiler [of stub_env "\<lparr>Name = ''foo'', FileName = ''foo.go'', Path = ''/work/foo''\<rparr>" stub_world]
  by (simp add: stub_env_def stub_world_def stub_go_def)

subsection \<open>The packaging step\<close>

lemma zip_path_differs: "getBuildOutputPath conf \<noteq> getZipOutputPath conf"
  by (simp add: getBuildOutputPath_def getZipOutputPath_def)

lemma zipBuild_success:
  assumes "files w (getBuildOutputPath conf) = Some content"
    and "fs_fault e OpCreate (getZipOutputPath conf) = None"
    and "fs_fault e OpOpen (getBuildOutputPath conf) = None"
    and "fs_fault e OpStat (getBuildOutputPath conf) = None"
    and "fs_fault e OpCopy (getBuildOutputPath conf) = None"
    and "length (basename (getBuildOutputPath conf)) \<le> 65535"
  shows "zipBuild e conf w =
           (None, w\<lparr>files := (files w)(getZipOutputPath conf \<mapsto>
              zip_bytes e [(\<lparr>zh_Name = basename (getBuildOutputPath conf), zh_Method = Deflate,
                              zh_Size = length content\<rparr>, content)])\<rparr>)"
  using assms zip_path_differs [of conf]
  by (simp add: zipBuild_def os_Create_def os_Open_def file_Stat_def zip_FileInfoHeader_def
        zip_CreateHeader_def io_Copy_def writer_Close_def)

text \<open>
  Claim C6. For a built file that exists and can be opened, inspected and read, with an
  archive path that can be created (and a base name the archive format can hold),
  packaging succeeds, and reading the archive back, with a reader that inverts the writer
  on this archive, yields one entry: the file's content, under the file's base name, with
  the method deflate.
\<close>

theorem zipBuild_round_trip:
  assumes "files w (getBuildOutputPath conf) = Some content"
    and "fs_fault e OpCreate (getZipOutputPath conf) = None"
    and "fs_fault e OpOpen (getBuildOutputPath conf) = None"
    and "fs_fault e OpStat (getBuildOutputPath conf) = None"
    and "fs_fault e OpCopy (getBuildOutputPath conf) = None"
    and "length (basename (getBuildOutputPath conf)) \<le> 65535"
    and "zip_read e (zip_bytes e
           [(\<lparr>zh_Name = basename (getBuildOutputPath conf), zh_Method = Deflate,
              zh_Size = length content\<rparr>, content)]) =
         Some [(\<lparr>zh_Name = basename (getBuildOutputPath conf), zh_Method = Deflate,
                 zh_Size = length content\<rparr>, content)]"
  shows "fst (zipBuild e conf w) = None
       \<and> Option.bind (files (snd (zipBuild e conf w)) (getZipOutputPath conf)) (zip_read e)
           = Some [(\<lparr>zh_Name = basename (getBuildOutputPath conf), zh_Method = Deflate,
                     zh_Size = length content\<rparr>, content)]"
  using assms(7) by (simp add: zipBuild_success [OF assms(1-6)])

text \<open>The executable of \<^verbatim>\<open>foo\<close>, packaged and read back with the archive double.\<close>

theorem zipBuild_round_trip_witness:
  "fst (zipBuild stub_env foo_config packaged_world) = None
   \<and> Option.bind (files (snd (zipBuild stub_env foo_config packaged_world)) ''/work/foo/foo.zip'')
        stub_zip_read
       = Some [(\<lparr>zh_Name = ''foo'', zh_Method = Deflate, zh_Size = 15\<rparr>, ''ELFpackage main'')]"
proof -
  have 1: "files packaged_world (getBuildOutputPath foo_config) = Some ''ELFpackage main''"
    by (simp add: packaged_world_def getBuildOutputPath_def foo_config_def)
  have 2: "fs_fault stub_env op p = None" for op p by (simp add: stub_env_def)
  have 3: "basename (getBuildOutputPath foo_config) = ''foo''"
    by (simp add: basename_def getBuildOutputPath_def foo_config_def)
  have 4: "zip_read stub_env (zip_bytes stub_env
           [(\<lparr>zh_Name = basename (getBuildOutputPath foo_config), zh_Method = Deflate,
              zh_Size = length ''ELFpackage main''\<rparr>, ''ELFpackage main'')]) =
         Some [(\<lparr>zh_Name = basename (getBuildOutputPath foo_config), zh_Method = Deflate,
                 zh_Size = length ''ELFpackage main''\<rparr>, ''ELFpackage main'')]"
    by (simp add: 3 stub_env_def stub_zip_bytes_def stub_zip_read_def)
  have 5: "length (basename (getBuildOutputPath foo_config)) \<le> 65535" by (simp add: 3)
  have 6: "getZipOutputPath foo_config = ''/work/foo/foo.zip''"
    by (simp add: getZipOutputPath_def foo_config_def)
  have 7: "zip_read stub_env = stub_zip_read" by (simp add: stub_env_def)
  show ?thesis
    using zipBuild_round_trip [OF 1 2 2 2 2 5 4]
    by (simp add: 3 6 7)
qed

subsection \<open>The deploy step\<close>

text \<open>
  Claim C3. When the archive is read, the session is there and the platform answers the
  code update with a function name and a handler: if the handler equals the configured
  name, the deploy step issues no configuration update; if it differs, it issues exactly
  one, whose handler is the configured name.
\<close>

theorem updateLambda_handler_update:
  assumes "ioutil_ReadFile e w (getZipOutputPath conf) = Inr data"
    and "new_session e"
    and "aws_UpdateFunctionCode e (trace w)
           (emptyUpdateFunctionCodeInput\<lparr>ufc_FunctionName := Some (Name conf), ufc_ZipFile := Some data\<rparr>)
         = Inr lambdaInfo"
    and "fc_FunctionName lambdaInfo = Some fname"
    and "fc_Handler lambdaInfo = Some handler"
  shows "config_calls (trace (snd (updateLambda e conf w))) =
           config_calls (trace w) @
             (if handler = Name conf then []
              else [emptyUpdateFunctionConfigurationInput\<lparr>ufg_Handler := Some (Name conf)\<rparr>])"
  using assms
  by (simp add: updateLambda_def Let_def strings_Compare_eq logrus_Infof_def log_event_def
        config_calls_append split: sum.splits)

text \<open>
  The platform double reports the handler \<^verbatim>\<open>main\<close> for the function \<^verbatim>\<open>foo\<close>: one update.
  The one that reports \<^verbatim>\<open>foo\<close>: none.
\<close>

theorem updateLambda_handler_update_witness:
  "config_calls (trace (snd (updateLambda stub_env foo_config packaged_world))) =
     [emptyUpdateFunctionConfigurationInput\<lparr>ufg_Handler := Some ''foo''\<rparr>]
   \<and> config_calls (trace (snd (updateLambda same_handler_env foo_config packaged_world))) = []"
proof -
  have 1: "ioutil_ReadFile stub_env packaged_world (getZipOutputPath foo_config)
             = Inr ''PKfoo:ELFpackage main''"
    by (simp add: ioutil_ReadFile_def stub_env_def packaged_world_def getZipOutputPath_def
          foo_config_def)
  have 2: "new_session stub_env" by (simp add: stub_env_def)
  have 3: "aws_UpdateFunctionCode stub_env (trace packaged_world)
             (emptyUpdateFunctionCodeInput
                \<lparr>ufc_FunctionName := Some (Name foo_config),
                   ufc_ZipFile := Some ''PKfoo:ELFpackage main''\<rparr>)
           = Inr \<lparr>fc_FunctionName = Some ''foo'', fc_Handler = Some ''main''\<rparr>"
    by (simp add: stub_env_def emptyUpdateFunctionCodeInput_def foo_config_def)
  have 4: "ioutil_ReadFile same_handler_env packaged_world (getZipOutputPath foo_config)
             = Inr ''PKfoo:ELFpackage main''"
    by (simp add: ioutil_ReadFile_def same_handler_env_def stub_env_def packaged_world_def
          getZipOutputPath_def foo_config_def)
  have 5: "new_session same_handler_env" by (simp add: same_handler_env_def stub_env_def)
  have 6: "aws_UpdateFunctionCode same_handler_env (trace packaged_world)
             (emptyUpdateFunctionCodeInput
                \<lparr>ufc_FunctionName := Some (Name foo_config),
                   ufc_ZipFile := Some ''PKfoo:ELFpackage main''\<rparr>)
           = Inr \<lparr>fc_FunctionName = Some ''foo'', fc_Handler = Some ''foo''\<rparr>"
    by (simp add: same_handler_env_def stub_env_def emptyUpdateFunctionCodeInput_def foo_config_def)
  show ?thesis
    using updateLambda_handler_update [OF 1 2 3, of "''foo''" "''main''"]
      updateLambda_handler_update [OF 4 5 6, of "''foo''" "''foo''"]
    by (simp add: foo_config_def packaged_world_def stub_world_def)
qed

text \<open>
  Claim C4. When the reported handler differs from the configured name, the request of
  the configuration update carries the handler and nothing else: its function name, which
  would say which function to update, is not set.
\<close>

theorem updateLambda_configuration_request:
  assumes "ioutil_ReadFile e w (getZipOutputPath conf) = Inr data"
    and "new_session e"
    and "aws_UpdateFunctionCode e (trace w)
           (emptyUpdateFunctionCodeInput\<lparr>ufc_FunctionName := Some (Name conf), ufc_ZipFile := Some data\<rparr>)
         = Inr lambdaInfo"
    and "fc_FunctionName lambdaInfo = Some fname"
    and "fc_Handler lambdaInfo = Some handler"
    and "handler \<noteq> Name conf"
  shows "config_calls (trace (snd (updateLambda e conf w))) =
           config_calls (trace w) @
             [\<lparr>ufg_FunctionName = None, ufg_Handler = Some (Name conf), ufg_Description = None,
               ufg_KMSKeyArn = None, ufg_MemorySize = None, ufg_RevisionId = None,
               ufg_Role = None, ufg_Runtime = None, ufg_Timeout = None\<rparr>]"
  using assms
  by (simp add: updateLambda_def Let_def strings_Compare_eq logrus_Infof_def log_event_def
        config_calls_append emptyUpdateFunctionConfigurationInput_def split: sum.splits)

text \<open>
  The request issued for \<^verbatim>\<open>foo\<close> against the platform double.
\<close>

theorem updateLambda_configuration_request_witness:
  "map ufg_FunctionName (config_calls (trace (snd (updateLambda stub_env foo_config packaged_world))))
     = [None]
   \<and> map ufg_Handler (config_calls (trace (snd (updateLambda stub_env foo_config packaged_world))))
     = [Some ''foo'']"
proof -
  have 1: "ioutil_ReadFile stub_env packaged_world (getZipOutputPath foo_config)
             = Inr ''PKfoo:ELFpackage main''"
    by (simp add: ioutil_ReadFile_def stub_env_def packaged_world_def getZipOutputPath_def
          foo_config_def)
  have 2: "new_session stub_env" by (simp add: stub_env_def)
  have 3: "aws_UpdateFunctionCode stub_env (trace packaged_world)
             (emptyUpdateFunctionCodeInput
                \<lparr>ufc_FunctionName := Some (Name foo_config),
                   ufc_ZipFile := Some ''PKfoo:ELFpackage main''\<rparr>)
           = Inr \<lparr>fc_FunctionName = Some ''foo'', fc_Handler = Some ''main''\<rparr>"
    by (simp add: stub_env_def emptyUpdateFunctionCodeInput_def foo_config_def)
  show ?thesis
    using updateLambda_configuration_request [OF 1 2 3, of "''foo''" "''main''"]
    by (simp add: foo_config_def packaged_world_def stub_world_def)
qed

subsection \<open>Failures in the loop of main\<close>

lemma processFile_build_fails:
  assumes "parseFunctionConfig e w file = Inr conf"
    and "exec_Run e ''go'' [''build'', ''-o'', getBuildOutputPath conf, getFullFilePath conf] (files w)
           = Inl msg"
  shows "processFile e file w =
           (Exited, w\<lparr>trace := trace w @
              [Exec ''go'' [''build'', ''-o'', getBuildOutputPath conf, getFullFilePath conf],
               LogFatal (ExecError msg) (''error while compiling for config at '' @ file)]\<rparr>)"
  using assms
  by (simp add: processFile_def build_def exec_Command_Run_def log_event_def logrus_Fatalf_def)

lemma forFiles_stops:
  "fst (processFile e file w) \<noteq> Returned \<Longrightarrow> forFiles e (file # rest) w = processFile e file w"
  by (cases "processFile e file w"; cases "fst (processFile e file w)") auto

text \<open>
  Claim C7. When the compiler fails for a descriptor, the process exits: no file is
  written (in particular none at the archive path), no call to the platform is made, and
  the loop goes no further.
\<close>

theorem build_failure_no_archive_no_deploy:
  assumes "parseFunctionConfig e w file = Inr conf"
    and "exec_Run e ''go'' [''build'', ''-o'', getBuildOutputPath conf, getFullFilePath conf] (files w)
           = Inl msg"
  shows "fst (processFile e file w) = Exited
       \<and> files (snd (processFile e file w)) (getZipOutputPath conf) = files w (getZipOutputPath conf)
       \<and> files (snd (processFile e file w)) = files w
       \<and> code_calls (trace (snd (processFile e file w))) = code_calls (trace w)
       \<and> config_calls (trace (snd (processFile e file w))) = config_calls (trace w)
       \<and> fst (forFiles e (file # rest) w) = Exited
       \<and> snd (forFiles e (file # rest) w) = snd (processFile e file w)"
proof -
  note p = processFile_build_fails [OF assms]
  have "fst (processFile e file w) \<noteq> Returned" by (simp add: p)
  then have "forFiles e (file # rest) w = processFile e file w" by (rule forFiles_stops)
  then show ?thesis by (simp add: p code_calls_append config_calls_append)
qed

text \<open>
  The descriptor \<^verbatim>\<open>bar\<close> names no source file; the compiler double fails on it.
\<close>

theorem build_failure_no_archive_no_deploy_witness:
  "parseFunctionConfig stub_env stub_world ''/work/bar/.function.yaml''
     = Inr \<lparr>Name = ''bar'', FileName = [], Path = ''/work/bar''\<rparr>
   \<and> fst (processFile stub_env ''/work/bar/.function.yaml'' stub_world) = Exited
   \<and> files (snd (processFile stub_env ''/work/bar/.function.yaml'' stub_world)) ''/work/bar/bar.zip''
       = None
   \<and> code_calls (trace (snd (processFile stub_env ''/work/bar/.function.yaml'' stub_world))) = []"
proof -
  have 1: "parseFunctionConfig stub_env stub_world ''/work/bar/.function.yaml''
     = Inr \<lparr>Name = ''bar'', FileName = [], Path = ''/work/bar''\<rparr>"
    by (simp add: parseFunctionConfig_def ioutil_ReadFile_def yaml_Unmarshal_def stub_env_def
        stub_world_def stub_yaml_parse_def zeroConfig_def)
  have 2: "exec_Run stub_env ''go''
             [''build'', ''-o'', getBuildOutputPath \<lparr>Name = ''bar'', FileName = [], Path = ''/work/bar''\<rparr>,
              getFullFilePath \<lparr>Name = ''bar'', FileName = [], Path = ''/work/bar''\<rparr>]
             (files stub_world) = Inl ''exit status 1''"
    by (simp add: stub_env_def stub_go_def stub_world_def getBuildOutputPath_def getFullFilePath_def)
  show ?thesis
    using 1 build_failure_no_archive_no_deploy [OF 1 2]
    by (simp add: getZipOutputPath_def stub_world_def)
qed

lemma processFile_parse_fails:
  "parseFunctionConfig e w file = Inl err \<Longrightarrow>
   processFile e file w =
     (Exited, log_event (LogFatal err (''error while reading function config at '' @ file)) w)"
  by (simp add: processFile_def logrus_Fatalf_def)

lemma processFile_build_error:
  "parseFunctionConfig e w file = Inr conf \<Longrightarrow> build e conf w = (Some err, w1) \<Longrightarrow>
   processFile e file w =
     (Exited, log_event (LogFatal err (''error while compiling for config at '' @ file)) w1)"
  by (simp add: processFile_def logrus_Fatalf_def)

lemma processFile_zip_error:
  "parseFunctionConfig e w file = Inr conf \<Longrightarrow> build e conf w = (None, w1) \<Longrightarrow>
   zipBuild e conf w1 = (Some err, w2) \<Longrightarrow>
   processFile e file w =
     (Exited, log_event (LogFatal err (''error while building function config at '' @ file)) w2)"
  by (simp add: processFile_def logrus_Fatalf_def)

lemma processFile_deploy_error:
  "parseFunctionConfig e w file = Inr conf \<Longrightarrow> build e conf w = (None, w1) \<Longrightarrow>
   zipBuild e conf w1 = (None, w2) \<Longrightarrow> updateLambda e conf w2 = (Some err, w3) \<Longrightarrow>
   \<not> is_panic err \<Longrightarrow>
   processFile e file w =
     (Exited,
      log_event (LogFatal err (''error while updating Lambda-Function for config at '' @ file)) w3)"
  by (simp add: processFile_def logrus_Fatalf_def)

lemma processFile_deploy_panic:
  "parseFunctionConfig e w file = Inr conf \<Longrightarrow> build e conf w = (None, w1) \<Longrightarrow>
   zipBuild e conf w1 = (None, w2) \<Longrightarrow> updateLambda e conf w2 = (Some err, w3) \<Longrightarrow>
   is_panic err \<Longrightarrow>
   fst (processFile e file w) \<noteq> Returned"
  by (simp add: processFile_def split: prod.splits outcome.splits)

text \<open>
  Claim C8. A descriptor whose processing does not return ends the loop, whatever files
  come after it; a failure of parsing, of the build, of the packaging or of the deployment
  is such an end. When the build of the first descriptor fails, the process exits with the
  files untouched and a trace that holds the compiler run and the fatal log line of the
  first descriptor only: the descriptors after it are never parsed, built, packaged or
  deployed.
\<close>

theorem failure_stops_the_batch:
  "(fst (processFile e file w) \<noteq> Returned \<longrightarrow> forFiles e (file # rest) w = processFile e file w)
   \<and> (\<forall>err. parseFunctionConfig e w file = Inl err \<longrightarrow> fst (processFile e file w) = Exited)
   \<and> (\<forall>conf w1 w2 w3 err.
         parseFunctionConfig e w file = Inr conf \<and>
         (build e conf w = (Some err, w1)
          \<or> build e conf w = (None, w1) \<and> zipBuild e conf w1 = (Some err, w2)
          \<or> build e conf w = (None, w1) \<and> zipBuild e conf w1 = (None, w2)
              \<and> updateLambda e conf w2 = (Some err, w3))
         \<longrightarrow> fst (processFile e file w) \<noteq> Returned)
   \<and> (\<forall>conf msg.
         parseFunctionConfig e w file = Inr conf \<and>
         exec_Run e ''go'' [''build'', ''-o'', getBuildOutputPath conf, getFullFilePath conf] (files w)
           = Inl msg
         \<longrightarrow> forFiles e (file # rest) w =
               (Exited, w\<lparr>trace := trace w @
                  [Exec ''go'' [''build'', ''-o'', getBuildOutputPath conf, getFullFilePath conf],
                   LogFatal (ExecError msg) (''error while compiling for config at '' @ file)]\<rparr>))"
proof (intro conjI allI impI)
  assume "fst (processFile e file w) \<noteq> Returned"
  then show "forFiles e (file # rest) w = processFile e file w" by (rule forFiles_stops)
next
  fix err assume "parseFunctionConfig e w file = Inl err"
  then show "fst (processFile e file w) = Exited" by (simp add: processFile_parse_fails)
next
  fix conf w1 w2 w3 err
  assume a: "parseFunctionConfig e w file = Inr conf \<and>
         (build e conf w = (Some err, w1)
          \<or> build e conf w = (None, w1) \<and> zipBuild e conf w1 = (Some err, w2)
          \<or> build e conf w = (None, w1) \<and> zipBuild e conf w1 = (None, w2)
              \<and> updateLambda e conf w2 = (Some err, w3))"
  then have p: "parseFunctionConfig e w file = Inr conf" by simp
  from a consider
      (b) "build e conf w = (Some err, w1)"
    | (z) "build e conf w = (None, w1)" "zipBuild e conf w1 = (Some err, w2)"
    | (u) "build e conf w = (None, w1)" "zipBuild e conf w1 = (None, w2)"
          "updateLambda e conf w2 = (Some err, w3)"
    by blast
  then show "fst (processFile e file w) \<noteq> Returned"
  proof cases
    case b
    then show ?thesis by (simp add: processFile_build_error [OF p])
  next
    case z
    then show ?thesis by (simp add: processFile_zip_error [OF p])
  next
    case u
    then show ?thesis
      by (cases "is_panic err")
         (simp_all add: processFile_deploy_error [OF p] processFile_deploy_panic [OF p])
  qed
next
  fix conf msg
  assume a: "parseFunctionConfig e w file = Inr conf \<and>
         exec_Run e ''go'' [''build'', ''-o'', getBuildOutputPath conf, getFullFilePath conf] (files w)
           = Inl msg"
  then have p: "processFile e file w =
           (Exited, w\<lparr>trace := trace w @
              [Exec ''go'' [''build'', ''-o'', getBuildOutputPath conf, getFullFilePath conf],
               LogFatal (ExecError msg) (''error while compiling for config at '' @ file)]\<rparr>)"
    by (simp add: processFile_build_fails)
  then have "fst (processFile e file w) \<noteq> Returned" by simp
  then have "forFiles e (file # rest) w = processFile e file w" by (rule forFiles_stops)
  with p show "forFiles e (file # rest) w =
               (Exited, w\<lparr>trace := trace w @
                  [Exec ''go'' [''build'', ''-o'', getBuildOutputPath conf, getFullFilePath conf],
                   LogFatal (ExecError msg) (''error while compiling for config at '' @ file)]\<rparr>)"
    by simp
qed

text \<open>
  Two descriptors, the first without a source file.
\<close>

theorem failure_stops_the_batch_witness:
  "forFiles stub_env [''/work/bar/.function.yaml'', ''/work/foo/.function.yaml''] stub_world =
     (Exited, stub_world\<lparr>trace :=
        [Exec ''go'' [''build'', ''-o'', ''/work/bar/bar'', ''/work/bar/''],
         LogFatal (ExecError ''exit status 1'')
           ''error while compiling for config at /work/bar/.function.yaml'']\<rparr>)"
proof -
  have 1: "parseFunctionConfig stub_env stub_world ''/work/bar/.function.yaml''
     = Inr \<lparr>Name = ''bar'', FileName = [], Path = ''/work/bar''\<rparr>"
    by (simp add: parseFunctionConfig_def ioutil_ReadFile_def yaml_Unmarshal_def stub_env_def
        stub_world_def stub_yaml_parse_def zeroConfig_def)
  have 2: "exec_Run stub_env ''go''
             [''build'', ''-o'', getBuildOutputPath \<lparr>Name = ''bar'', FileName = [], Path = ''/work/bar''\<rparr>,
              getFullFilePath \<lparr>Name = ''bar'', FileName = [], Path = ''/work/bar''\<rparr>]
             (files stub_world) = Inl ''exit status 1''"
    by (simp add: stub_env_def stub_go_def stub_world_def getBuildOutputPath_def getFullFilePath_def)
  show ?thesis
    using failure_stops_the_batch [of stub_env "''/work/bar/.function.yaml''" stub_world
        "[''/work/foo/.function.yaml'']"] 1 2
    by (simp add: getBuildOutputPath_def getFullFilePath_def stub_world_def)
qed

subsection \<open>Cleanup\<close>

lemma updateLambda_files: "files (snd (updateLambda e conf w)) = files w"
  by (simp add: updateLambda_def Let_def log_event_def logrus_Infof_def
        split: sum.splits option.splits)

lemma zipBuild_leaves_both:
  assumes "zipBuild e conf w1 = (None, w2)"
  shows "files w2 (getBuildOutputPath conf) \<noteq> None \<and> files w2 (getZipOutputPath conf) \<noteq> None"
  using assms zip_path_differs [of conf]
  by (auto simp add: zipBuild_def os_Create_def os_Open_def writer_Close_def
        split: option.splits sum.splits if_splits)

text \<open>
  When the deployment fails with an error, the process exits at once: the deferred
  deletions do not run, and both the built file and the archive stay.
\<close>

lemma deploy_error_leaves_files:
  assumes "parseFunctionConfig e w file = Inr conf"
    and "build e conf w = (None, w1)"
    and "zipBuild e conf w1 = (None, w2)"
    and "updateLambda e conf w2 = (Some err, w3)"
    and "\<not> is_panic err"
  shows "fst (processFile e file w) = Exited
       \<and> files (snd (processFile e file w)) (getBuildOutputPath conf) \<noteq> None
       \<and> files (snd (processFile e file w)) (getZipOutputPath conf) \<noteq> None"
proof -
  have "files w3 = files w2"
    using updateLambda_files [of e conf w2] assms(4) by simp
  with zipBuild_leaves_both [OF assms(3)] show ?thesis
    by (simp add: processFile_deploy_error [OF assms] log_event_def)
qed

text \<open>When the processing of a descriptor returns, both files are gone.\<close>

lemma os_Remove_removes: "os_Remove e w p = (None, w') \<Longrightarrow> files w' = (files w)(p := None)"
  by (auto simp add: os_Remove_def split: option.splits)

lemma mustDeleteZipFile_Returned:
  "mustDeleteZipFile e conf w = (Returned, w') \<Longrightarrow>
   files w' = (files w)(getZipOutputPath conf := None)"
  by (auto simp add: mustDeleteZipFile_def logrus_Fatalf_def dest!: os_Remove_removes
        split: prod.splits option.splits)

lemma mustDeleteBuildFile_Returned:
  "mustDeleteBuildFile e conf w = (Returned, w') \<Longrightarrow>
   files w' = (files w)(getBuildOutputPath conf := None)"
  by (auto simp add: mustDeleteBuildFile_def logrus_Fatalf_def dest!: os_Remove_removes
        split: prod.splits option.splits)

lemma returned_removes_files:
  assumes "parseFunctionConfig e w file = Inr conf"
    and "processFile e file w = (Returned, w')"
  shows "files w' (getBuildOutputPath conf) = None \<and> files w' (getZipOutputPath conf) = None"
  using assms
  by (auto simp add: processFile_def logrus_Fatalf_def
        dest!: mustDeleteZipFile_Returned mustDeleteBuildFile_Returned
        split: prod.splits option.splits outcome.splits if_splits)

text \<open>
  Claim C1. The claim says that both files are removed on every way out of the
  processing of a descriptor, also when the deployment fails. With a platform that
  refuses the upload, the process exits and both files are still there.
\<close>

theorem deploy_failure_skips_cleanup:
  "fst (processFile failing_platform_env ''/work/foo/.function.yaml'' stub_world) = Exited
   \<and> files (snd (processFile failing_platform_env ''/work/foo/.function.yaml'' stub_world))
        ''/work/foo/foo'' = Some ''ELFpackage main''
   \<and> files (snd (processFile failing_platform_env ''/work/foo/.function.yaml'' stub_world))
        ''/work/foo/foo.zip'' = Some ''PKfoo:ELFpackage main''"
  by (simp add: processFile_def parseFunctionConfig_def ioutil_ReadFile_def yaml_Unmarshal_def
        failing_platform_env_def stub_env_def stub_world_def stub_yaml_parse_def zeroConfig_def
        build_def exec_Command_Run_def stub_go_def getBuildOutputPath_def getFullFilePath_def
        getZipOutputPath_def log_event_def logrus_Fatalf_def
        zipBuild_def os_Create_def os_Open_def file_Stat_def zip_FileInfoHeader_def
        zip_CreateHeader_def io_Copy_def writer_Close_def basename_def stub_zip_bytes_def
        updateLambda_def Let_def)

text \<open>With the platform double that accepts it, the same descriptor leaves neither.\<close>

lemma successful_run_cleans_up:
  "fst (processFile stub_env ''/work/foo/.function.yaml'' stub_world) = Returned
   \<and> files (snd (processFile stub_env ''/work/foo/.function.yaml'' stub_world))
        ''/work/foo/foo'' = None
   \<and> files (snd (processFile stub_env ''/work/foo/.function.yaml'' stub_world))
        ''/work/foo/foo.zip'' = None"
  by (simp add: processFile_def parseFunctionConfig_def ioutil_ReadFile_def yaml_Unmarshal_def
        stub_env_def stub_world_def stub_yaml_parse_def zeroConfig_def
        build_def exec_Command_Run_def stub_go_def getBuildOutputPath_def getFullFilePath_def
        getZipOutputPath_def log_event_def logrus_Fatalf_def logrus_Infof_def
        zipBuild_def os_Create_def os_Open_def file_Stat_def zip_FileInfoHeader_def
        zip_CreateHeader_def io_Copy_def writer_Close_def basename_def stub_zip_bytes_def
        updateLambda_def Let_def emptyUpdateFunctionCodeInput_def
        emptyUpdateFunctionConfigurationInput_def mustDeleteZipFile_def mustDeleteBuildFile_def
        os_Remove_def)

subsection \<open>The whole program\<close>

text \<open>
  The whole program on the doubles: discovery finds \<^verbatim>\<open>bar\<close> before \<^verbatim>\<open>foo\<close>, the build of
  \<^verbatim>\<open>bar\<close> fails, and nothing is done for \<^verbatim>\<open>foo\<close>.
\<close>

lemma main_stops_at_first_failure:
  "main stub_env stub_world =
     (Exited, stub_world\<lparr>trace :=
        [Exec ''go'' [''build'', ''-o'', ''/work/bar/bar'', ''/work/bar/''],
         LogFatal (ExecError ''exit status 1'')
           ''error while compiling for config at /work/bar/.function.yaml'']\<rparr>)"
proof -
  have r: "readable (tree stub_env)" by (simp add: stub_env_def)
  note stub_tree_markers
  with findFunctionConfigs_readable [OF r, of "''/work''"]
  have f: "findFunctionConfigs stub_env ''/work''
       = Inr [''/work/bar/.function.yaml'', ''/work/foo/.function.yaml'']"
    by simp
  have g: "getwd stub_env = Inr ''/work''" by (simp add: stub_env_def)
  have p: "parseFunctionConfig stub_env stub_world ''/work/bar/.function.yaml''
     = Inr \<lparr>Name = ''bar'', FileName = [], Path = ''/work/bar''\<rparr>"
    by (simp add: parseFunctionConfig_def ioutil_ReadFile_def yaml_Unmarshal_def stub_env_def
        stub_world_def stub_yaml_parse_def zeroConfig_def)
  have x: "exec_Run stub_env ''go''
             [''build'', ''-o'', getBuildOutputPath \<lparr>Name = ''bar'', FileName = [], Path = ''/work/bar''\<rparr>,
              getFullFilePath \<lparr>Name = ''bar'', FileName = [], Path = ''/work/bar''\<rparr>]
             (files stub_world) = Inl ''exit status 1''"
    by (simp add: stub_env_def stub_go_def stub_world_def getBuildOutputPath_def getFullFilePath_def)
  have "main stub_env stub_world = processFile stub_env ''/work/bar/.function.yaml'' stub_world"
    by (simp add: main_def g f processFile_build_fails [OF p x])
  moreover have "trace stub_world = []" by (simp add: stub_world_def)
  ultimately show ?thesis
    by (simp add: processFile_build_fails [OF p x] getBuildOutputPath_def getFullFilePath_def)
qed

end
